theory Spec2Isabelle
  imports Complex_Main
begin

section \<open>Double DQN training script for LunarLander: a shallow embedding\<close>

text \<open>
  The development follows \<^verbatim>\<open>lunarlander.py\<close>. Python floats and tensor
  entries are idealised as real numbers, a one-dimensional tensor is a list of reals and
  a batch is a list of such lists. Tensor operations are total list functions: the
  shapes of all tensors are fixed by the construction of the networks, so shape errors
  of the tensor library are not part of the model. Exceptions raised by the Python
  code itself (popping from an empty list, indexing a list that is too short, a modulus
  by zero, sampling more transitions than are stored) are values of type \<open>error\<close>.
  Rendering, the progress bars and the switches \<open>actor_model.train()\<close> and
  \<open>actor_model.eval()\<close>, which have no effect on a network of linear layers, are left
  out.
\<close>

subsection \<open>Hyperparameters (lines 41 to 81)\<close>

text \<open>
  The module-level constants that the functions below read are collected in a record,
  so that statements can range over every setting; \<open>defaults\<close> holds the values
  written in the script. \<open>REWARD_AFFECT_THRESH\<close>, a list of two numbers read at the
  indices \<open>0\<close> and \<open>1\<close>, is a pair.
\<close>

record config =
  BATCH_SIZE :: nat
  INPUT_N_STATES :: nat
  TRAIN_INTERVAL :: nat
  SAVE_INTERVAL :: nat
  EPISODES_PER_EPOCH :: nat
  SOFT_COPY_INTERVAL :: nat
  HARD_COPY_INTERVAL :: nat
  GAMMA :: real
  TAU :: real
  ACTOR_LR :: real
  REWARD_AFFECT_PAST_N :: nat
  REWARD_AFFECT_THRESH :: "real \<times> real"
  MEMORY_REWARD_THRESH :: real
  DISABLE_RANDOM :: bool
  SAVING_ENABLED :: bool
  LEARNING_ENABLED :: bool
  EPS_DECAY :: real
  MIN_EPS :: real
  SURPRISAL_BIAS :: real
  SURPRISAL_WEIGHT :: real

definition defaults :: config where
  "defaults = \<lparr> BATCH_SIZE = 64, INPUT_N_STATES = 4, TRAIN_INTERVAL = 1,
     SAVE_INTERVAL = 5000, EPISODES_PER_EPOCH = 1, SOFT_COPY_INTERVAL = 1,
     HARD_COPY_INTERVAL = 10000, GAMMA = 99 / 100, TAU = 1 / 10000,
     ACTOR_LR = 15 / 100000, REWARD_AFFECT_PAST_N = 10,
     REWARD_AFFECT_THRESH = (- 5, 5), MEMORY_REWARD_THRESH = 0,
     DISABLE_RANDOM = False, SAVING_ENABLED = True, LEARNING_ENABLED = True,
     EPS_DECAY = 1 / 1000, MIN_EPS = 5 / 100, SURPRISAL_BIAS = 0,
     SURPRISAL_WEIGHT = 1 / 1000 \<rparr>"

text \<open>The starting value of the global \<open>eps\<close> (line 74).\<close>

definition eps_start :: real where
  "eps_start = 2"

subsection \<open>Errors, vectors, transitions\<close>

datatype error = IndexError | ValueError | ZeroDivisionError

type_synonym vec = "real list"

type_synonym rand = "nat \<Rightarrow> real"

text \<open>
  A source of randomness is the sequence of uniform samples still to be drawn: taking
  \<open>k\<close> samples reads its first \<open>k\<close> entries and shifts it by \<open>k\<close>.
\<close>

definition rand_take :: "nat \<Rightarrow> rand \<Rightarrow> real list" where
  "rand_take k r = map r [0..<k]"

definition rand_drop :: "nat \<Rightarrow> rand \<Rightarrow> rand" where
  "rand_drop k r = (\<lambda>i. r (i + k))"

text \<open>
  \<open>Transition\<close> is the named tuple of line 181. An entry of \<open>short_memory\<close> is the
  four-element list \<open>[state, action, next_state, reward]\<close> of line 309, whose fourth
  component is updated in place; it is modelled by the same record.
\<close>

record Transition =
  state :: vec
  action :: nat
  next_state :: vec
  reward :: real

subsection \<open>The helper classes of \<^verbatim>\<open>utils\<close>\<close>

text \<open>
  Modelled from the spec: \<^verbatim>\<open>utils.memory_stack.MemoryStack\<close>, the replay store,
  whose code is not part of the script. It is a buffer of fixed capacity (the argument
  of the constructor on line 184) whose contents the script reads as \<open>memory\<close>.
\<close>

record MemoryStack =
  capacity :: nat
  memory :: "Transition list"

text \<open>
  Modelled from the spec: \<^verbatim>\<open>MemoryStack.push\<close>. A push appends the transition;
  once the buffer is full the oldest entry is evicted, so the size never exceeds the
  capacity.
\<close>

definition push :: "MemoryStack \<Rightarrow> Transition \<Rightarrow> MemoryStack" where
  "push m t = m\<lparr> memory := (let ys = memory m @ [t] in drop (length ys - capacity m) ys) \<rparr>"

text \<open>
  Modelled from the spec: \<^verbatim>\<open>MemoryStack.sample\<close>. Sampling \<open>k\<close> transitions
  fails when fewer than \<open>k\<close> are stored and otherwise draws \<open>k\<close> entries uniformly
  with replacement; \<open>pick\<close> turns a uniform sample into an index of the buffer.
\<close>

definition pick :: "nat \<Rightarrow> real \<Rightarrow> nat" where
  "pick n u = nat \<lfloor>u * real n\<rfloor> mod n"

definition sample :: "MemoryStack \<Rightarrow> nat \<Rightarrow> rand \<Rightarrow> error + (Transition list \<times> rand)" where
  "sample m k r =
     (if length (memory m) < k then Inl ValueError
      else Inr (map (\<lambda>u. memory m ! pick (length (memory m)) u) (rand_take k r),
                rand_drop k r))"

text \<open>
  Modelled from the spec: \<^verbatim>\<open>utils.dqn_utils.GreedyEpsilon\<close>, the exploration
  policy, whose code is not part of the script; its fields are the arguments of the
  constructor on line 86.
\<close>

record GreedyEpsilon =
  disable_random :: bool
  eps_decay :: real
  min_eps :: real

text \<open>
  Modelled from the spec: \<^verbatim>\<open>GreedyEpsilon.choose\<close>, named \<open>choose_eps\<close> here.
  When exploration is disabled it returns \<open>(False, epsilon)\<close>; otherwise it draws one
  uniform sample, explores when the sample is below \<open>epsilon\<close>, and in either case
  returns the decayed value \<open>max MIN_EPS (epsilon - EPS_DECAY)\<close>.
\<close>

definition choose_eps :: "GreedyEpsilon \<Rightarrow> real \<Rightarrow> rand \<Rightarrow> (bool \<times> real) \<times> rand" where
  "choose_eps g epsilon r =
     (if disable_random g then ((False, epsilon), r)
      else ((r 0 < epsilon, max (min_eps g) (epsilon - eps_decay g)), rand_drop 1 r))"

text \<open>The instance created on line 86.\<close>

definition greedy_epsilon :: "config \<Rightarrow> GreedyEpsilon" where
  "greedy_epsilon c =
     \<lparr> disable_random = DISABLE_RANDOM c, eps_decay = EPS_DECAY c, min_eps = MIN_EPS c \<rparr>"

text \<open>
  Modelled from the spec: \<^verbatim>\<open>utils.dqn_utils.ModelAdjuster\<close>, the target
  synchronization scheduler, whose code is not part of the script; it is created on
  line 87 from \<open>TAU\<close> and the two intervals. Its operation \<open>soft_hard_copy\<close> follows
  the definition of the networks.
\<close>

record ModelAdjuster =
  tau :: real
  hard_copy_interval :: nat
  soft_copy_interval :: nat

definition model_adjuster :: "config \<Rightarrow> ModelAdjuster" where
  "model_adjuster c =
     \<lparr> tau = TAU c, hard_copy_interval = HARD_COPY_INTERVAL c,
       soft_copy_interval = SOFT_COPY_INTERVAL c \<rparr>"

text \<open>
  The plotting helper only receives named scalars (\<open>add_entry\<close>); the entries are kept
  in the order in which they were added.
\<close>

type_synonym Multiplot = "(string \<times> real) list"

definition add_entry :: "string \<Rightarrow> real \<Rightarrow> Multiplot \<Rightarrow> Multiplot" where
  "add_entry name v mp = mp @ [(name, v)]"

subsection \<open>The network (lines 92 to 166)\<close>

text \<open>
  A linear layer computes \<open>W x + b\<close>; \<open>leaky_relu\<close> has the library's default
  negative slope \<open>0.01\<close>.
\<close>

record Linear =
  weight :: "real list list"
  bias :: "real list"

definition Linear_forward :: "Linear \<Rightarrow> vec \<Rightarrow> vec" where
  "Linear_forward l x = map2 (\<lambda>row b. sum_list (map2 (*) row x) + b) (weight l) (bias l)"

definition leaky_relu :: "vec \<Rightarrow> vec" where
  "leaky_relu = map (\<lambda>v. if 0 \<le> v then v else v / 100)"

record CustomDQN =
  isPred :: bool
  lin_1 :: Linear
  lin_2a :: Linear
  lin_oA :: Linear
  lin_2b :: Linear
  lin_oB :: Linear

text \<open>
  \<open>torch.max\<close> and \<open>torch.argmax\<close> along the action dimension: the largest entry
  of a row and the index of its first occurrence.
\<close>

fun max_list :: "real list \<Rightarrow> real" where
  "max_list [] = 0"
| "max_list [x] = x"
| "max_list (x # y # ys) = max x (max_list (y # ys))"

fun min_list :: "real list \<Rightarrow> real" where
  "min_list [] = 0"
| "min_list [x] = x"
| "min_list (x # y # ys) = min x (min_list (y # ys))"

definition argmax :: "real list \<Rightarrow> nat" where
  "argmax xs = length (takeWhile (\<lambda>x. x < max_list xs) xs)"

text \<open>\<open>tensor.gather(1, index.unsqueeze(1))\<close>: one entry per row.\<close>

definition gather :: "vec list \<Rightarrow> nat list \<Rightarrow> real list" where
  "gather rows idx = map2 (\<lambda>row k. row ! k) rows idx"

text \<open>\<open>torch.zeros_like(a).scatter_(1, chosen_actions.unsqueeze(1), 1.)\<close>, row by row.\<close>

definition one_hot :: "vec \<Rightarrow> nat \<Rightarrow> vec" where
  "one_hot row k = (map (\<lambda>_. 0) row)[k := 1]"

text \<open>\<open>torch.rand_like\<close>: as many fresh uniform samples as the tensor has entries.\<close>

fun rand_like :: "vec list \<Rightarrow> rand \<Rightarrow> vec list \<times> rand" where
  "rand_like [] r = ([], r)"
| "rand_like (row # rows) r =
     (let (rs, r') = rand_like rows (rand_drop (length row) r)
      in (rand_take (length row) r # rs, r'))"

subsection \<open>The global state of the script\<close>

text \<open>
  The module-level variables that the functions read and write. \<open>saved\<close> records the
  calls of \<open>torch.save\<close> (the step number of the file name and the saved network);
  \<open>env\<close> is the state of the simulator and \<open>rng\<close> the random samples still to come.
\<close>

record ('e, 'o) globals =
  step :: nat
  eps :: real
  actor_model :: CustomDQN
  pred_model :: CustomDQN
  actor_optimizer :: 'o
  actor_mem :: MemoryStack
  short_memory :: "Transition list"
  obs_stack :: "vec list"
  next_obs :: vec
  next_state_tensor :: vec
  cumulative_reward :: real
  multiplot :: Multiplot
  saved :: "(nat \<times> CustomDQN) list"
  env :: 'e
  rng :: rand

text \<open>
  The collaborators whose code is outside the script: the simulator, automatic
  differentiation and the optimizer. The loss of a training step is handed to
  \<open>backward\<close> as a function of the online network's parameters; whatever is computed
  under \<open>torch.no_grad()\<close> is a constant of that function.
\<close>

record ('e, 'o, 'g) collaborators =
  env_reset :: "'e \<Rightarrow> vec \<times> 'e"
  env_step :: "'e \<Rightarrow> nat \<Rightarrow> (vec \<times> real \<times> bool \<times> bool) \<times> 'e"
  backward :: "(CustomDQN \<Rightarrow> real) \<Rightarrow> CustomDQN \<Rightarrow> 'g"
  grad_norm :: "'g \<Rightarrow> real"
  clip_grad_value :: "'g \<Rightarrow> real \<Rightarrow> 'g"
  optimizer_step :: "real \<Rightarrow> 'g \<Rightarrow> CustomDQN \<Rightarrow> 'o \<Rightarrow> CustomDQN \<times> 'o"

definition bind_err :: "error + 'a \<Rightarrow> ('a \<Rightarrow> error + 'b) \<Rightarrow> error + 'b" where
  "bind_err m f = (case m of Inl e \<Rightarrow> Inl e | Inr x \<Rightarrow> f x)"

text \<open>
  \<open>CustomDQN.forward\<close> (lines 126 to 166). It updates the global \<open>eps\<close> through
  \<open>greedy_epsilon.choose\<close> on every call, whatever \<open>training\<close> is.
\<close>

definition forward ::
  "config \<Rightarrow> CustomDQN \<Rightarrow> vec list \<Rightarrow> nat list option \<Rightarrow> bool \<Rightarrow> ('e, 'o) globals
   \<Rightarrow> (vec list \<times> vec list) \<times> ('e, 'o) globals" where
  "forward c self x real_actions training g =
     (let x1 = map (\<lambda>v. leaky_relu (Linear_forward (lin_1 self) v)) x;
          a0 = map (\<lambda>v. Linear_forward (lin_oA self)
                          (leaky_relu (Linear_forward (lin_2a self) v))) x1;
          ((explore, e), r1) = choose_eps (greedy_epsilon c) (eps g) (rng g);
          (a, r2) = (if \<not> training \<and> explore
                     then (let (n, r') = rand_like a0 r1 in (map (map (\<lambda>u. u * 2 - 1)) n, r'))
                     else (a0, r1));
          chosen_actions = (case real_actions of None \<Rightarrow> map argmax a | Some ra \<Rightarrow> ra);
          one_hot_encoded_action = map2 one_hot a chosen_actions;
          b = map2 (\<lambda>v h. Linear_forward (lin_oB self)
                            (leaky_relu (Linear_forward (lin_2b self) (v @ h))))
                x1 one_hot_encoded_action
      in ((a, b), g\<lparr> eps := e, rng := r2 \<rparr>))"

subsection \<open>The reward-shaping window (lines 204 to 241)\<close>

text \<open>
  \<open>send_short_to_long_mem\<close>: each iteration pops the oldest entry (an \<open>IndexError\<close>
  on an empty list), logs its reward and pushes it to \<open>actor_mem\<close> when the absolute
  value of the reward exceeds \<open>MEMORY_REWARD_THRESH\<close>.
\<close>

fun send_short_to_long_mem ::
  "config \<Rightarrow> nat \<Rightarrow> ('e, 'o) globals \<Rightarrow> error + ('e, 'o) globals" where
  "send_short_to_long_mem c 0 g = Inr g"
| "send_short_to_long_mem c (Suc n) g =
     (case short_memory g of
        [] \<Rightarrow> Inl IndexError
      | short_mem # rest \<Rightarrow>
          send_short_to_long_mem c n
            (g\<lparr> short_memory := rest,
                multiplot := add_entry ''real_reward'' (reward short_mem) (multiplot g),
                actor_mem := (if \<bar>reward short_mem\<bar> > MEMORY_REWARD_THRESH c
                              then push (actor_mem g) short_mem else actor_mem g) \<rparr>))"

text \<open>
  One iteration of the loop of line 222:
  \<^verbatim>\<open>short_memory[-(i + 1)][3] += reward / (i + 1)\<close>.
\<close>

definition affect_one :: "real \<Rightarrow> nat \<Rightarrow> Transition list \<Rightarrow> Transition list" where
  "affect_one r i sm =
     (let j = length sm - (i + 1)
      in sm[j := (sm ! j)\<lparr> reward := reward (sm ! j) + r / real (i + 1) \<rparr>])"

definition affect_short_mem ::
  "config \<Rightarrow> real \<Rightarrow> ('e, 'o) globals \<Rightarrow> error + ('e, 'o) globals" where
  "affect_short_mem c r g =
     bind_err (if length (short_memory g) > REWARD_AFFECT_PAST_N c
               then send_short_to_long_mem c 1 g else Inr g)
       (\<lambda>g1. Inr (if r < fst (REWARD_AFFECT_THRESH c) \<or> r > snd (REWARD_AFFECT_THRESH c)
                   then g1\<lparr> short_memory :=
                          fold (affect_one r) [0..<length (short_memory g1)] (short_memory g1) \<rparr>
                   else g1))"

subsection \<open>Target synchronization\<close>

definition blend :: "real \<Rightarrow> real \<Rightarrow> real \<Rightarrow> real" where
  "blend t theta_o theta_t = theta_t + t * (theta_o - theta_t)"

definition map_Linear2 :: "(real \<Rightarrow> real \<Rightarrow> real) \<Rightarrow> Linear \<Rightarrow> Linear \<Rightarrow> Linear" where
  "map_Linear2 f lo lt =
     \<lparr> weight = map2 (map2 f) (weight lo) (weight lt), bias = map2 f (bias lo) (bias lt) \<rparr>"

definition map_params2 :: "(real \<Rightarrow> real \<Rightarrow> real) \<Rightarrow> CustomDQN \<Rightarrow> CustomDQN \<Rightarrow> CustomDQN" where
  "map_params2 f online target =
     target\<lparr> lin_1 := map_Linear2 f (lin_1 online) (lin_1 target),
             lin_2a := map_Linear2 f (lin_2a online) (lin_2a target),
             lin_oA := map_Linear2 f (lin_oA online) (lin_oA target),
             lin_2b := map_Linear2 f (lin_2b online) (lin_2b target),
             lin_oB := map_Linear2 f (lin_oB online) (lin_oB target) \<rparr>"

definition copy_params :: "CustomDQN \<Rightarrow> CustomDQN \<Rightarrow> CustomDQN" where
  "copy_params online target =
     target\<lparr> lin_1 := lin_1 online, lin_2a := lin_2a online, lin_oA := lin_oA online,
             lin_2b := lin_2b online, lin_oB := lin_oB online \<rparr>"

text \<open>
  Modelled from the spec: \<^verbatim>\<open>ModelAdjuster.soft_hard_copy\<close>. When the step count
  is a multiple of the soft interval, every target parameter \<open>\<theta>\<^sub>t\<close> becomes
  \<open>\<theta>\<^sub>t + \<tau> (\<theta>\<^sub>o - \<theta>\<^sub>t)\<close>; when it is a multiple of the hard interval, every
  target parameter is then overwritten by the online one. The two checks are
  independent, the hard copy coming last. A modulus by an interval of zero raises.
\<close>

definition soft_hard_copy ::
  "ModelAdjuster \<Rightarrow> nat \<Rightarrow> CustomDQN \<Rightarrow> CustomDQN \<Rightarrow> error + CustomDQN" where
  "soft_hard_copy adj n online target =
     (if soft_copy_interval adj = 0 then Inl ZeroDivisionError
      else let t1 = (if n mod soft_copy_interval adj = 0
                     then map_params2 (blend (tau adj)) online target else target)
           in if hard_copy_interval adj = 0 then Inl ZeroDivisionError
              else Inr (if n mod hard_copy_interval adj = 0 then copy_params online t1 else t1))"

subsection \<open>The training step (lines 322 to 384)\<close>

text \<open>\<open>nn.HuberLoss()\<close> with its defaults: threshold one, mean over all entries.\<close>

definition huber :: "real \<Rightarrow> real \<Rightarrow> real" where
  "huber x y = (let d = \<bar>x - y\<bar> in if d < 1 then d * d / 2 else d - 1 / 2)"

definition HuberLoss :: "real list \<Rightarrow> real list \<Rightarrow> real" where
  "HuberLoss xs ys = sum_list (map2 huber xs ys) / real (length xs)"

text \<open>Lines 346 to 352: the value logged under the name \<open>surprisal\<close>.\<close>

definition surprisal_entry :: "config \<Rightarrow> vec list \<Rightarrow> vec list \<Rightarrow> real" where
  "surprisal_entry c next_state_batch next_state_guess =
     (let pred_diff = map2 (map2 (-)) next_state_batch next_state_guess;
          abs_pred_diff = map (map abs) pred_diff;
          mean = sum_list (concat abs_pred_diff) / real (length (concat abs_pred_diff));
          diff_from_mean_pred_diff = map (map (\<lambda>v. v - mean)) abs_pred_diff;
          surprisal = map sum_list diff_from_mean_pred_diff;
          scaled_surprisal = map (\<lambda>s. (s + SURPRISAL_BIAS c) * SURPRISAL_WEIGHT c) surprisal
      in (max_list scaled_surprisal - min_list scaled_surprisal) * 5)"

text \<open>
  Lines 357 to 367: the block under \<open>torch.no_grad()\<close> and the target built from it.
  Both forward passes update the global \<open>eps\<close>.
\<close>

definition ddqn_target ::
  "config \<Rightarrow> vec list \<Rightarrow> real list \<Rightarrow> ('e, 'o) globals \<Rightarrow> real list \<times> ('e, 'o) globals" where
  "ddqn_target c next_state_batch reward_batch g =
     (let ((actor_next_preds, b1), g1) = forward c (actor_model g) next_state_batch None True g;
          actor_pred_max_a = map argmax actor_next_preds;
          ((pred_out, b2), g2) = forward c (pred_model g1) next_state_batch None True g1;
          next_state_actions = gather pred_out actor_pred_max_a
      in (map2 (\<lambda>r q. r + q * GAMMA c) reward_batch next_state_actions, g2))"

text \<open>
  The loss of lines 345, 355 and 372 as a function of the online network's parameters
  \<open>\<theta>\<close>: the graph that \<open>actor_loss.backward()\<close> differentiates. The batch and
  \<open>target_output\<close> are constants of it.
\<close>

definition actor_loss_fn ::
  "config \<Rightarrow> vec list \<Rightarrow> nat list \<Rightarrow> vec list \<Rightarrow> real list \<Rightarrow> ('e, 'o) globals
   \<Rightarrow> CustomDQN \<Rightarrow> real" where
  "actor_loss_fn c state_batch action_batch next_state_batch target_output g \<theta> =
     (let ((state_values, next_state_guess), g1) =
             forward c \<theta> state_batch (Some action_batch) True g;
          state_actions = gather state_values action_batch
      in HuberLoss state_actions target_output
         + HuberLoss (concat next_state_guess) (concat next_state_batch))"

definition model_train ::
  "('e, 'o, 'g) collaborators \<Rightarrow> config \<Rightarrow> nat \<Rightarrow> ('e, 'o) globals
   \<Rightarrow> error + (real \<times> ('e, 'o) globals)" where
  "model_train w c batch_size g =
     bind_err (sample (actor_mem g) batch_size (rng g)) (\<lambda>(transitions, r1).
       let g0 = g\<lparr> rng := r1 \<rparr>;
           state_batch = map state transitions;
           action_batch = map action transitions;
           next_state_batch = map next_state transitions;
           reward_batch = map reward transitions;
           ((state_values, next_state_guess), g1) =
              forward c (actor_model g0) state_batch (Some action_batch) True g0;
           g2 = g1\<lparr> multiplot := add_entry ''surprisal''
                       (surprisal_entry c next_state_batch next_state_guess) (multiplot g1) \<rparr>;
           state_actions = gather state_values action_batch;
           (target_output, g3) = ddqn_target c next_state_batch reward_batch g2;
           actor_loss = HuberLoss state_actions target_output
                        + HuberLoss (concat next_state_guess) (concat next_state_batch);
           grads = backward w
                     (actor_loss_fn c state_batch action_batch next_state_batch target_output g0)
                     (actor_model g3);
           g4 = g3\<lparr> multiplot := add_entry ''grad_norm'' (grad_norm w grads) (multiplot g3) \<rparr>;
           (\<theta>, opt) = optimizer_step w (ACTOR_LR c) (clip_grad_value w grads 1)
                         (actor_model g4) (actor_optimizer g4)
       in Inr (actor_loss, g4\<lparr> actor_model := \<theta>, actor_optimizer := opt \<rparr>))"

text \<open>\<open>try_learning\<close> (lines 186 to 201).\<close>

definition try_learning ::
  "('e, 'o, 'g) collaborators \<Rightarrow> config \<Rightarrow> ('e, 'o) globals \<Rightarrow> error + ('e, 'o) globals" where
  "try_learning w c g =
     (if \<not> LEARNING_ENABLED c then Inr g
      else
        bind_err
          (if length (memory (actor_mem g)) > BATCH_SIZE c then
             (if TRAIN_INTERVAL c = 0 then Inl ZeroDivisionError
              else if step g mod TRAIN_INTERVAL c = 0 then
                bind_err (model_train w c (BATCH_SIZE c) g) (\<lambda>(a_loss, g1).
                  Inr (g1\<lparr> multiplot := add_entry ''a_loss'' a_loss (multiplot g1) \<rparr>))
              else Inr g)
           else Inr g)
          (\<lambda>g2. if SAVE_INTERVAL c = 0 then Inl ZeroDivisionError
                 else if step g2 mod SAVE_INTERVAL c = 0 \<and> SAVING_ENABLED c
                 then Inr (g2\<lparr> saved := saved g2 @ [(step g2, actor_model g2)] \<rparr>)
                 else Inr g2))"

subsection \<open>The episode loop (lines 256 to 318)\<close>

text \<open>\<open>deque(maxlen=n).append\<close>: the oldest entries fall out once the deque is full.\<close>

definition append_maxlen :: "nat \<Rightarrow> 'a list \<Rightarrow> 'a \<Rightarrow> 'a list" where
  "append_maxlen n xs x = (let ys = xs @ [x] in drop (length ys - n) ys)"

text \<open>
  Lines 270 to 294: run the online network on the current observation stack, log its
  four outputs, act in the simulator, and reset the simulator when the episode is over.
  The result is \<open>(state_tensor, max_a, reward, done)\<close> and the new globals.
\<close>

definition select_and_step ::
  "('e, 'o, 'g) collaborators \<Rightarrow> config \<Rightarrow> ('e, 'o) globals
   \<Rightarrow> error + ((vec \<times> nat \<times> real \<times> bool) \<times> ('e, 'o) globals)" where
  "select_and_step w c g =
     (let state_tensor = next_state_tensor g;
          ((out, b), g1) = forward c (actor_model g) [state_tensor] None False g;
          row = hd out
      in if length row < 4 then Inl IndexError
         else
           (let g2 = g1\<lparr> multiplot :=
                        add_entry ''output_3'' (row ! 3)
                          (add_entry ''output_2'' (row ! 2)
                            (add_entry ''output_1'' (row ! 1)
                              (add_entry ''output_0'' (row ! 0) (multiplot g1)))) \<rparr>;
                max_a = argmax row;
                ((ob, r, terminated, truncated), e1) = env_step w (env g2) max_a;
                g3 = g2\<lparr> env := e1, next_obs := ob,
                        multiplot := add_entry ''natural_reward'' r (multiplot g2) \<rparr>;
                g4 = g3\<lparr> cumulative_reward := cumulative_reward g3 + r,
                        multiplot := add_entry ''cumulative_reward''
                                       (cumulative_reward g3 + r) (multiplot g3) \<rparr>
            in if terminated \<or> truncated
               then (let (ob0, e2) = env_reset w (env g4)
                     in Inr ((state_tensor, max_a, r, True),
                             g4\<lparr> env := e2, next_obs := ob0, cumulative_reward := 0 \<rparr>))
               else Inr ((state_tensor, max_a, r, False), g4)))"

text \<open>
  Lines 301 to 313: shape the window with the new reward, push the new observation on
  the observation stack, append the new record to the window, and flush the whole
  window when the episode is over.
\<close>

definition store_transition ::
  "config \<Rightarrow> vec \<Rightarrow> nat \<Rightarrow> real \<Rightarrow> bool \<Rightarrow> ('e, 'o) globals \<Rightarrow> error + ('e, 'o) globals" where
  "store_transition c state_tensor max_a r done g =
     bind_err (affect_short_mem c r g) (\<lambda>g1.
       let stack = append_maxlen (INPUT_N_STATES c) (obs_stack g1) (next_obs g1);
           mem_block = \<lparr> state = state_tensor, action = max_a,
                         next_state = concat stack, reward = r \<rparr>;
           g2 = g1\<lparr> obs_stack := stack, next_state_tensor := concat stack,
                   short_memory := short_memory g1 @ [mem_block] \<rparr>
       in if done then send_short_to_long_mem c (length (short_memory g2)) g2 else Inr g2)"

text \<open>Lines 315 to 318.\<close>

definition learn_and_sync ::
  "('e, 'o, 'g) collaborators \<Rightarrow> config \<Rightarrow> ('e, 'o) globals \<Rightarrow> error + ('e, 'o) globals" where
  "learn_and_sync w c g =
     bind_err (try_learning w c g) (\<lambda>g1.
       bind_err (soft_hard_copy (model_adjuster c) (step g1) (actor_model g1) (pred_model g1))
         (\<lambda>p. Inr (g1\<lparr> pred_model := p, step := step g1 + 1 \<rparr>)))"

text \<open>One pass through the body of the \<open>while\<close> loop; the flag is \<open>done\<close>.\<close>

definition loop_body ::
  "('e, 'o, 'g) collaborators \<Rightarrow> config \<Rightarrow> ('e, 'o) globals
   \<Rightarrow> error + (bool \<times> ('e, 'o) globals)" where
  "loop_body w c g =
     bind_err (select_and_step w c g) (\<lambda>((state_tensor, max_a, r, done), g1).
       bind_err (store_transition c state_tensor max_a r done g1) (\<lambda>g2.
         bind_err (learn_and_sync w c g2) (\<lambda>g3. Inr (done, g3))))"

text \<open>
  \<open>model_infer\<close>: the loop runs until an episode ends, which depends on the simulator.
  The first argument bounds the number of iterations; \<open>None\<close> means that the bound
  was reached before the episode ended.
\<close>

fun model_infer_loop ::
  "nat \<Rightarrow> ('e, 'o, 'g) collaborators \<Rightarrow> config \<Rightarrow> ('e, 'o) globals
   \<Rightarrow> (error + ('e, 'o) globals) option" where
  "model_infer_loop 0 w c g = None"
| "model_infer_loop (Suc n) w c g =
     (case loop_body w c g of
        Inl e \<Rightarrow> Some (Inl e)
      | Inr (done, g1) \<Rightarrow> if done then Some (Inr g1) else model_infer_loop n w c g1)"

definition model_infer ::
  "nat \<Rightarrow> ('e, 'o, 'g) collaborators \<Rightarrow> config \<Rightarrow> ('e, 'o) globals
   \<Rightarrow> (error + ('e, 'o) globals) option" where
  "model_infer n w c g = model_infer_loop n w c (g\<lparr> cumulative_reward := 0 \<rparr>)"

text \<open>
  Lines 399 to 410 of \<open>main\<close>: before each epoch the simulator is reset and the
  observation stack is filled with copies of the first observation.
\<close>

definition main_reinit ::
  "('e, 'o, 'g) collaborators \<Rightarrow> config \<Rightarrow> ('e, 'o) globals \<Rightarrow> ('e, 'o) globals" where
  "main_reinit w c g =
     (let (ob, e1) = env_reset w (env g);
          stack = replicate (INPUT_N_STATES c) ob
      in g\<lparr> env := e1, next_obs := ob, obs_stack := stack,
            next_state_tensor := concat stack \<rparr>)"

subsection \<open>The two heads of a network as functions of one input\<close>

text \<open>
  For stating results: the layers that \<open>forward\<close> applies to one row of its input,
  written as functions. \<open>Q_values\<close> is the action-value head, \<open>next_state_prediction\<close>
  the second head for a given action, \<open>decayed\<close> the value of \<open>eps\<close> after one call
  of \<open>choose\<close> and \<open>drawn\<close> the random source after it. That \<open>forward\<close> computes
  these is proved below.
\<close>

definition hidden :: "CustomDQN \<Rightarrow> vec \<Rightarrow> vec" where
  "hidden m v = leaky_relu (Linear_forward (lin_1 m) v)"

definition Q_values :: "CustomDQN \<Rightarrow> vec \<Rightarrow> vec" where
  "Q_values m v = Linear_forward (lin_oA m) (leaky_relu (Linear_forward (lin_2a m) (hidden m v)))"

definition next_state_prediction :: "CustomDQN \<Rightarrow> vec \<Rightarrow> nat \<Rightarrow> vec" where
  "next_state_prediction m v k =
     Linear_forward (lin_oB m)
       (leaky_relu (Linear_forward (lin_2b m) (hidden m v @ one_hot (Q_values m v) k)))"

definition decayed :: "config \<Rightarrow> real \<Rightarrow> real" where
  "decayed c e = (if DISABLE_RANDOM c then e else max (MIN_EPS c) (e - EPS_DECAY c))"

definition drawn :: "config \<Rightarrow> rand \<Rightarrow> rand" where
  "drawn c r = (if DISABLE_RANDOM c then r else rand_drop 1 r)"

text \<open>
  The row of scores from which the episode loop takes its action: the action values of
  the online network on the current observation stack or, when the policy explores,
  uniform noise in their place.
\<close>

definition explores :: "config \<Rightarrow> ('e, 'o) globals \<Rightarrow> bool" where
  "explores c g = (\<not> DISABLE_RANDOM c \<and> rng g 0 < eps g)"

definition action_scores :: "config \<Rightarrow> ('e, 'o) globals \<Rightarrow> vec" where
  "action_scores c g =
     (let q = Q_values (actor_model g) (next_state_tensor g)
      in if explores c g
         then map (\<lambda>u. u * 2 - 1) (rand_take (length q) (drawn c (rng g))) else q)"

definition chosen_action :: "config \<Rightarrow> ('e, 'o) globals \<Rightarrow> nat" where
  "chosen_action c g = argmax (action_scores c g)"

text \<open>
  What the simulator answers in one pass through the loop: the reward, whether the
  episode is over, and the observation that the loop then pushes on the observation
  stack (the first observation after the reset when the episode is over).
\<close>

definition env_response ::
  "('e, 'o, 'g) collaborators \<Rightarrow> config \<Rightarrow> ('e, 'o) globals \<Rightarrow> vec \<times> real \<times> bool \<times> bool" where
  "env_response w c g = fst (env_step w (env g) (chosen_action c g))"

definition step_reward :: "('e, 'o, 'g) collaborators \<Rightarrow> config \<Rightarrow> ('e, 'o) globals \<Rightarrow> real" where
  "step_reward w c g = fst (snd (env_response w c g))"

definition episode_over :: "('e, 'o, 'g) collaborators \<Rightarrow> config \<Rightarrow> ('e, 'o) globals \<Rightarrow> bool" where
  "episode_over w c g =
     (fst (snd (snd (env_response w c g))) \<or> snd (snd (snd (env_response w c g))))"

definition reset_observation ::
  "('e, 'o, 'g) collaborators \<Rightarrow> config \<Rightarrow> ('e, 'o) globals \<Rightarrow> vec" where
  "reset_observation w c g = fst (env_reset w (snd (env_step w (env g) (chosen_action c g))))"

definition pushed_observation ::
  "('e, 'o, 'g) collaborators \<Rightarrow> config \<Rightarrow> ('e, 'o) globals \<Rightarrow> vec" where
  "pushed_observation w c g =
     (if episode_over w c g then reset_observation w c g else fst (env_response w c g))"

text \<open>
  For stating results about the window: the conditional admission of one record to the
  replay store, the records that are resident when the shaping rule runs, and the
  shaping rule written by recency (\<open>1\<close> for the most recent record).
\<close>

definition admit :: "config \<Rightarrow> Transition \<Rightarrow> MemoryStack \<Rightarrow> MemoryStack" where
  "admit c t m = (if \<bar>reward t\<bar> > MEMORY_REWARD_THRESH c then push m t else m)"

definition resident :: "config \<Rightarrow> Transition list \<Rightarrow> Transition list" where
  "resident c sm = (if length sm > REWARD_AFFECT_PAST_N c then tl sm else sm)"

definition shaped :: "config \<Rightarrow> real \<Rightarrow> Transition list \<Rightarrow> Transition list" where
  "shaped c r w =
     (if r < fst (REWARD_AFFECT_THRESH c) \<or> r > snd (REWARD_AFFECT_THRESH c)
      then rev (map2 (\<lambda>i t. t\<lparr> reward := reward t + r / real i \<rparr>) [1..<Suc (length w)] (rev w))
      else w)"

text \<open>
  The training step in the words of the specification, to be compared with
  \<open>model_train\<close>: the batch that is sampled, the Double-DQN target
  \<open>y = reward + \<gamma> Q\<^sub>t\<^sub>a\<^sub>r\<^sub>g\<^sub>e\<^sub>t(s', a*)\<close> with \<open>a* = argmax\<^sub>a Q\<^sub>o\<^sub>n\<^sub>l\<^sub>i\<^sub>n\<^sub>e(s', a)\<close>, and the loss
  \<open>L(\<theta>) = robust_loss(Q\<^sub>\<theta>(s, a), y) + robust_loss(\<theta>'s prediction of s', s')\<close>.
\<close>

definition sampled_batch :: "('e, 'o) globals \<Rightarrow> nat \<Rightarrow> Transition list" where
  "sampled_batch g k =
     map (\<lambda>u. memory (actor_mem g) ! pick (length (memory (actor_mem g))) u)
       (rand_take k (rng g))"

definition td_target :: "config \<Rightarrow> CustomDQN \<Rightarrow> CustomDQN \<Rightarrow> Transition \<Rightarrow> real" where
  "td_target c online target t =
     reward t
     + Q_values target (next_state t) ! argmax (Q_values online (next_state t)) * GAMMA c"

definition training_loss :: "Transition list \<Rightarrow> real list \<Rightarrow> CustomDQN \<Rightarrow> real" where
  "training_loss ts y \<theta> =
     HuberLoss (map (\<lambda>t. Q_values \<theta> (state t) ! action t) ts) y
     + HuberLoss (concat (map (\<lambda>t. next_state_prediction \<theta> (state t) (action t)) ts))
         (concat (map next_state ts))"

text \<open>
  The globals after \<open>model_train(BATCH_SIZE)\<close> has run and \<open>try_learning\<close> has logged
  its loss, written with the functions above. That \<open>model_train\<close> and
  \<open>try_learning\<close> produce this state is proved below.
\<close>

definition trained ::
  "('e, 'o, 'g) collaborators \<Rightarrow> config \<Rightarrow> ('e, 'o) globals \<Rightarrow> ('e, 'o) globals" where
  "trained w c g =
     (let ts = sampled_batch g (BATCH_SIZE c);
          y = map (td_target c (actor_model g) (pred_model g)) ts;
          grads = backward w (training_loss ts y) (actor_model g);
          upd = optimizer_step w (ACTOR_LR c) (clip_grad_value w grads 1)
                  (actor_model g) (actor_optimizer g)
      in g\<lparr> rng := drawn c (drawn c (drawn c (rand_drop (BATCH_SIZE c) (rng g)))),
            eps := decayed c (decayed c (decayed c (eps g))),
            multiplot := multiplot g @
              [(''surprisal'',
                surprisal_entry c (map next_state ts)
                  (map (\<lambda>t. next_state_prediction (actor_model g) (state t) (action t)) ts)),
               (''grad_norm'', grad_norm w grads),
               (''a_loss'', training_loss ts y (actor_model g))],
            actor_model := fst upd, actor_optimizer := snd upd \<rparr>)"

text \<open>The \<open>torch.save\<close> at the end of \<open>try_learning\<close> (line 200).\<close>

definition save_model :: "config \<Rightarrow> ('e, 'o) globals \<Rightarrow> ('e, 'o) globals" where
  "save_model c g =
     (if step g mod SAVE_INTERVAL c = 0 \<and> SAVING_ENABLED c
      then g\<lparr> saved := saved g @ [(step g, actor_model g)] \<rparr> else g)"

text \<open>
  One pass through the loop, for stating results: whether \<open>try_learning\<close> trains, the
  record that the pass appends to the window, and the window and the replay store
  after the pass.
\<close>

definition trains :: "config \<Rightarrow> ('e, 'o) globals \<Rightarrow> bool" where
  "trains c g =
     (LEARNING_ENABLED c \<and> BATCH_SIZE c < length (memory (actor_mem g))
      \<and> step g mod TRAIN_INTERVAL c = 0)"

definition new_record ::
  "('e, 'o, 'g) collaborators \<Rightarrow> config \<Rightarrow> ('e, 'o) globals \<Rightarrow> Transition" where
  "new_record w c g =
     \<lparr> state = next_state_tensor g, action = chosen_action c g,
       next_state = concat (append_maxlen (INPUT_N_STATES c) (obs_stack g)
                              (pushed_observation w c g)),
       reward = step_reward w c g \<rparr>"

definition window_after ::
  "('e, 'o, 'g) collaborators \<Rightarrow> config \<Rightarrow> ('e, 'o) globals \<Rightarrow> Transition list" where
  "window_after w c g =
     (if episode_over w c g then []
      else shaped c (step_reward w c g) (resident c (short_memory g)) @ [new_record w c g])"

definition store_after ::
  "('e, 'o, 'g) collaborators \<Rightarrow> config \<Rightarrow> ('e, 'o) globals \<Rightarrow> MemoryStack" where
  "store_after w c g =
     (let a1 = (if length (short_memory g) > REWARD_AFFECT_PAST_N c
                then admit c (hd (short_memory g)) (actor_mem g) else actor_mem g)
      in if episode_over w c g
         then fold (admit c)
                (shaped c (step_reward w c g) (resident c (short_memory g)) @ [new_record w c g])
                a1
         else a1)"

text \<open>
  All parameters of a network in one list, and the condition that two networks have the
  same layer shapes.
\<close>

definition Linear_parameters :: "Linear \<Rightarrow> real list" where
  "Linear_parameters l = concat (weight l) @ bias l"

definition parameters :: "CustomDQN \<Rightarrow> real list" where
  "parameters m =
     Linear_parameters (lin_1 m) @ Linear_parameters (lin_2a m) @ Linear_parameters (lin_oA m)
     @ Linear_parameters (lin_2b m) @ Linear_parameters (lin_oB m)"

definition Linear_same_shape :: "Linear \<Rightarrow> Linear \<Rightarrow> bool" where
  "Linear_same_shape l k =
     (map length (weight l) = map length (weight k) \<and> length (bias l) = length (bias k))"

definition same_shape :: "CustomDQN \<Rightarrow> CustomDQN \<Rightarrow> bool" where
  "same_shape m n =
     (Linear_same_shape (lin_1 m) (lin_1 n) \<and> Linear_same_shape (lin_2a m) (lin_2a n)
      \<and> Linear_same_shape (lin_oA m) (lin_oA n) \<and> Linear_same_shape (lin_2b m) (lin_2b n)
      \<and> Linear_same_shape (lin_oB m) (lin_oB n))"

subsection \<open>A small concrete instance\<close>

text \<open>
  A network with one hidden unit per layer, four actions and a four-dimensional state,
  a simulator that counts its steps and ends the episode at its third step, an optimizer
  that leaves the parameters alone, and the globals as they are when the script starts.
  The theorems below are exercised on these values.
\<close>

definition example_net :: CustomDQN where
  "example_net =
     \<lparr> isPred = False,
       lin_1 = \<lparr> weight = [[0, 0, 0, 0]], bias = [0] \<rparr>,
       lin_2a = \<lparr> weight = [[0]], bias = [0] \<rparr>,
       lin_oA = \<lparr> weight = [[0], [0], [0], [0]], bias = [0, 1, 0, 0] \<rparr>,
       lin_2b = \<lparr> weight = [[0, 0, 0, 0, 0]], bias = [0] \<rparr>,
       lin_oB = \<lparr> weight = [[0], [0], [0], [0]], bias = [0, 0, 0, 0] \<rparr> \<rparr>"

definition example_world :: "(nat, unit, unit) collaborators" where
  "example_world =
     \<lparr> env_reset = (\<lambda>e. ([7], 0)),
       env_step = (\<lambda>e a. (([real (Suc e)], if e = 2 then 100 else 1, e = 2, False), Suc e)),
       backward = (\<lambda>f \<theta>. ()),
       grad_norm = (\<lambda>d. 0),
       clip_grad_value = (\<lambda>d b. d),
       optimizer_step = (\<lambda>lr d \<theta> opt. (\<theta>, opt)) \<rparr>"

definition example_globals :: "(nat, unit) globals" where
  "example_globals =
     \<lparr> step = 0, eps = eps_start, actor_model = example_net,
       pred_model = example_net\<lparr> isPred := True \<rparr>, actor_optimizer = (),
       actor_mem = \<lparr> capacity = 1000000, memory = [] \<rparr>, short_memory = [],
       obs_stack = [[0], [0], [0], [0]], next_obs = [0], next_state_tensor = [0, 0, 0, 0],
       cumulative_reward = 0, multiplot = [], saved = [], env = 0, rng = (\<lambda>i. 1 / 2) \<rparr>"

definition example_record :: "real \<Rightarrow> Transition" where
  "example_record x = \<lparr> state = [0, 0, 0, 0], action = 1, next_state = [0, 0, 0, 0], reward = x \<rparr>"

section \<open>What a forward pass computes\<close>

lemma choose_eps_greedy:
  "choose_eps (greedy_epsilon c) e r = ((\<not> DISABLE_RANDOM c \<and> r 0 < e, decayed c e), drawn c r)"
  by (simp add: choose_eps_def greedy_epsilon_def decayed_def drawn_def)

lemma heads_zip:
  "map2 (\<lambda>v h. Linear_forward (lin_oB m) (leaky_relu (Linear_forward (lin_2b m) (v @ h))))
     (map (hidden m) x) (map2 one_hot (map (Q_values m) x) ks) =
   map2 (next_state_prediction m) x ks"
proof (induction x arbitrary: ks)
  case Nil
  then show ?case by simp
next
  case (Cons v x)
  then show ?case by (cases ks) (simp_all add: next_state_prediction_def)
qed

lemma forward_training:
  "forward c m x ra True g =
     ((map (Q_values m) x,
       map2 (next_state_prediction m) x
         (case ra of None \<Rightarrow> map (\<lambda>v. argmax (Q_values m v)) x | Some acts \<Rightarrow> acts)),
      g\<lparr> eps := decayed c (eps g), rng := drawn c (rng g) \<rparr>)"
  unfolding forward_def choose_eps_greedy Let_def
  by (cases ra)
     (simp_all add: comp_def hidden_def [symmetric] Q_values_def [symmetric]
        heads_zip [unfolded map_map comp_def])


lemma forward_inference_scores:
  "fst (fst (forward c (actor_model g) [next_state_tensor g] None False g)) = [action_scores c g]"
  by (simp add: forward_def choose_eps_greedy Let_def action_scores_def explores_def
      hidden_def Q_values_def case_prod_beta)

lemma forward_globals:
  "snd (forward c m x ra tr g) =
     g\<lparr> eps := decayed c (eps g), rng := rng (snd (forward c m x ra tr g)) \<rparr>"
  by (simp add: forward_def choose_eps_greedy Let_def case_prod_beta)

lemma select_and_step_result:
  assumes "4 \<le> length (Q_values (actor_model g) (next_state_tensor g))"
  shows "\<exists>g'. select_and_step w c g =
            Inr ((next_state_tensor g, chosen_action c g, step_reward w c g, episode_over w c g), g') \<and>
          short_memory g' = short_memory g \<and> actor_mem g' = actor_mem g \<and>
          actor_model g' = actor_model g \<and> pred_model g' = pred_model g \<and>
          actor_optimizer g' = actor_optimizer g \<and> step g' = step g \<and>
          obs_stack g' = obs_stack g \<and> saved g' = saved g \<and>
          eps g' = decayed c (eps g) \<and> next_obs g' = pushed_observation w c g"
proof -
  have len: "length (action_scores c g) = length (Q_values (actor_model g) (next_state_tensor g))"
    by (simp add: action_scores_def Let_def rand_take_def)
  obtain out b g1 where f: "forward c (actor_model g) [next_state_tensor g] None False g = ((out, b), g1)"
    by (metis surj_pair)
  have out: "out = [action_scores c g]"
    using forward_inference_scores [of c g] f by simp
  have g1: "g1 = g\<lparr> eps := decayed c (eps g), rng := rng g1 \<rparr>"
    using forward_globals [of c "actor_model g" "[next_state_tensor g]" None False g] f by simp
  have fr: "env g1 = env g" "short_memory g1 = short_memory g" "actor_mem g1 = actor_mem g"
    "actor_model g1 = actor_model g" "pred_model g1 = pred_model g"
    "actor_optimizer g1 = actor_optimizer g" "step g1 = step g" "obs_stack g1 = obs_stack g"
    "saved g1 = saved g" "eps g1 = decayed c (eps g)"
    by (subst g1, simp)+
  show ?thesis
    unfolding select_and_step_def Let_def f out
    using assms len
    by (simp add: case_prod_beta chosen_action_def fr step_reward_def episode_over_def
        env_response_def pushed_observation_def reset_observation_def)
qed

lemma select_and_step_short:
  assumes "length (Q_values (actor_model g) (next_state_tensor g)) < 4"
  shows "select_and_step w c g = Inl IndexError"
proof -
  have len: "length (action_scores c g) = length (Q_values (actor_model g) (next_state_tensor g))"
    by (simp add: action_scores_def Let_def rand_take_def)
  obtain out b g1 where f: "forward c (actor_model g) [next_state_tensor g] None False g = ((out, b), g1)"
    by (metis surj_pair)
  have out: "out = [action_scores c g]"
    using forward_inference_scores [of c g] f by simp
  show ?thesis
    unfolding select_and_step_def Let_def f out using assms len by simp
qed

section \<open>What a training step computes\<close>

lemma gather_maps:
  "gather (map f xs) (map k xs) = map (\<lambda>x. f x ! k x) xs"
  by (induction xs) (simp_all add: gather_def)

lemma map2_maps: "map2 f (map h xs) (map k xs) = map (\<lambda>x. f (h x) (k x)) xs"
  by (induction xs) simp_all

lemma ddqn_target_result:
  "ddqn_target c (map next_state ts) (map reward ts) g =
     (map (td_target c (actor_model g) (pred_model g)) ts,
      g\<lparr> eps := decayed c (decayed c (eps g)), rng := drawn c (drawn c (rng g)) \<rparr>)"
  by (simp add: ddqn_target_def forward_training Let_def gather_maps [unfolded map_map comp_def]
        map2_maps [unfolded map_map comp_def] comp_def td_target_def [abs_def])

lemma actor_loss_fn_result:
  "actor_loss_fn c (map state ts) (map action ts) (map next_state ts) y g = training_loss ts y"
  by (rule ext)
     (simp add: actor_loss_fn_def forward_training Let_def gather_maps [unfolded map_map comp_def]
        map2_maps [unfolded map_map comp_def] comp_def training_loss_def)


lemma model_train_short:
  "length (memory (actor_mem g)) < k \<Longrightarrow> model_train w c k g = Inl ValueError"
  by (simp add: model_train_def sample_def bind_err_def)

lemma model_train_result:
  assumes "k \<le> length (memory (actor_mem g))"
  shows "model_train w c k g =
     (let ts = sampled_batch g k;
          y = map (td_target c (actor_model g) (pred_model g)) ts;
          grads = backward w (training_loss ts y) (actor_model g);
          upd = optimizer_step w (ACTOR_LR c) (clip_grad_value w grads 1)
                  (actor_model g) (actor_optimizer g)
      in Inr (training_loss ts y (actor_model g),
              g\<lparr> rng := drawn c (drawn c (drawn c (rand_drop k (rng g)))),
                  eps := decayed c (decayed c (decayed c (eps g))),
                  multiplot := multiplot g @
                    [(''surprisal'',
                      surprisal_entry c (map next_state ts)
                        (map (\<lambda>t. next_state_prediction (actor_model g) (state t) (action t)) ts)),
                     (''grad_norm'', grad_norm w grads)],
                  actor_model := fst upd, actor_optimizer := snd upd \<rparr>))"
  using assms
  by (simp add: model_train_def sample_def bind_err_def Let_def sampled_batch_def [symmetric]
        forward_training ddqn_target_result actor_loss_fn_result case_prod_beta
        gather_maps [unfolded map_map comp_def] map2_maps [unfolded map_map comp_def]
        comp_def training_loss_def [symmetric] add_entry_def)

lemma try_learning_result:
  "try_learning w c g =
     (if \<not> LEARNING_ENABLED c then Inr g
      else if BATCH_SIZE c < length (memory (actor_mem g)) \<and> TRAIN_INTERVAL c = 0
      then Inl ZeroDivisionError
      else if SAVE_INTERVAL c = 0 then Inl ZeroDivisionError
      else Inr (save_model c
                  (if BATCH_SIZE c < length (memory (actor_mem g))
                      \<and> step g mod TRAIN_INTERVAL c = 0
                   then trained w c g else g)))"
  by (simp add: try_learning_def bind_err_def model_train_result Let_def trained_def
      save_model_def add_entry_def)

section \<open>Properties of the reward-shaping window\<close>

lemma affect_one_length: "length (affect_one r i sm) = length sm"
  by (simp add: affect_one_def Let_def)

lemma fold_affect_one:
  "n \<le> length sm \<Longrightarrow>
   fold (affect_one r) [0..<n] sm =
     map (\<lambda>j. if length sm - n \<le> j
               then (sm ! j)\<lparr> reward := reward (sm ! j) + r / real (length sm - j) \<rparr>
               else sm ! j) [0..<length sm]"
proof (induction n)
  case 0
  then show ?case by (intro nth_equalityI) auto
next
  case (Suc n)
  then have n: "n < length sm" by simp
  have "fold (affect_one r) [0..<Suc n] sm = affect_one r n (fold (affect_one r) [0..<n] sm)"
    by simp
  also have "\<dots> = affect_one r n (map (\<lambda>j. if length sm - n \<le> j
               then (sm ! j)\<lparr> reward := reward (sm ! j) + r / real (length sm - j) \<rparr>
               else sm ! j) [0..<length sm])"
    using Suc by simp
  also have "\<dots> = map (\<lambda>j. if length sm - Suc n \<le> j
               then (sm ! j)\<lparr> reward := reward (sm ! j) + r / real (length sm - j) \<rparr>
               else sm ! j) [0..<length sm]"
    using n by (intro nth_equalityI) (auto simp: affect_one_def Let_def nth_list_update Suc_diff_Suc)
  finally show ?case .
qed

lemma shaped_window:
  "fold (affect_one r) [0..<length sm] sm =
     map (\<lambda>j. (sm ! j)\<lparr> reward := reward (sm ! j) + r / real (length sm - j) \<rparr>) [0..<length sm]"
  using fold_affect_one [of "length sm" sm r] by simp

lemma shaped_window_length: "length (fold (affect_one r) [0..<length sm] sm) = length sm"
  by (simp add: shaped_window)

lemma recency_form:
  "map (\<lambda>j. (w ! j)\<lparr> reward := reward (w ! j) + r / real (length w - j) \<rparr>) [0..<length w] =
   rev (map2 (\<lambda>i t. t\<lparr> reward := reward t + r / real i \<rparr>) [1..<Suc (length w)] (rev w))"
proof (intro nth_equalityI)
  show "length (map (\<lambda>j. (w ! j)\<lparr> reward := reward (w ! j) + r / real (length w - j) \<rparr>)
                  [0..<length w]) =
        length (rev (map2 (\<lambda>i t. t\<lparr> reward := reward t + r / real i \<rparr>)
                       [1..<Suc (length w)] (rev w)))"
    by (simp del: upt_Suc)
next
  fix j
  assume "j < length (map (\<lambda>j. (w ! j)\<lparr> reward := reward (w ! j) + r / real (length w - j) \<rparr>)
                        [0..<length w])"
  then have j: "j < length w" by simp
  then have k: "length w - Suc j < length w" by simp
  have i: "Suc 0 + (length w - Suc j) = length w - j" using j by simp
  show "map (\<lambda>j. (w ! j)\<lparr> reward := reward (w ! j) + r / real (length w - j) \<rparr>)
          [0..<length w] ! j =
        rev (map2 (\<lambda>i t. t\<lparr> reward := reward t + r / real i \<rparr>)
               [1..<Suc (length w)] (rev w)) ! j"
    using j k by (simp add: rev_nth i del: upt_Suc)
qed

lemma affect_short_mem_window:
  "\<exists>g'. affect_short_mem c r g = Inr g' \<and>
     short_memory g' =
       (let w = (if length (short_memory g) > REWARD_AFFECT_PAST_N c
                 then tl (short_memory g) else short_memory g)
        in if r < fst (REWARD_AFFECT_THRESH c) \<or> r > snd (REWARD_AFFECT_THRESH c)
           then fold (affect_one r) [0..<length w] w else w)"
proof (cases "length (short_memory g) > REWARD_AFFECT_PAST_N c")
  case True
  then obtain t rest where "short_memory g = t # rest"
    by (cases "short_memory g") auto
  with True show ?thesis
    by (simp add: affect_short_mem_def bind_err_def Let_def)
next
  case False
  then show ?thesis
    by (simp add: affect_short_mem_def bind_err_def Let_def)
qed

lemma send_short_to_long_mem_take:
  "n \<le> length (short_memory g) \<Longrightarrow>
   \<exists>g'. send_short_to_long_mem c n g = Inr g' \<and>
     short_memory g' = drop n (short_memory g) \<and>
     actor_mem g' =
       fold (\<lambda>t m. push m t)
         (filter (\<lambda>t. \<bar>reward t\<bar> > MEMORY_REWARD_THRESH c) (take n (short_memory g)))
         (actor_mem g) \<and>
     multiplot g' =
       multiplot g @ map (\<lambda>t. (''real_reward'', reward t)) (take n (short_memory g)) \<and>
     g' = g\<lparr> short_memory := short_memory g', actor_mem := actor_mem g',
             multiplot := multiplot g' \<rparr>"
proof (induction n arbitrary: g)
  case 0
  then show ?case by simp
next
  case (Suc n)
  then obtain t rest where sm: "short_memory g = t # rest"
    by (cases "short_memory g") auto
  let ?g1 = "g\<lparr> short_memory := rest,
                multiplot := add_entry ''real_reward'' (reward t) (multiplot g),
                actor_mem := (if \<bar>reward t\<bar> > MEMORY_REWARD_THRESH c
                              then push (actor_mem g) t else actor_mem g) \<rparr>"
  have "n \<le> length (short_memory ?g1)" using Suc.prems sm by simp
  from Suc.IH [OF this] obtain g' where
    r: "send_short_to_long_mem c n ?g1 = Inr g'"
    and s: "short_memory g' = drop n (short_memory ?g1)"
    and a: "actor_mem g' = fold (\<lambda>t m. push m t)
         (filter (\<lambda>t. \<bar>reward t\<bar> > MEMORY_REWARD_THRESH c) (take n (short_memory ?g1)))
         (actor_mem ?g1)"
    and m: "multiplot g' =
       multiplot ?g1 @ map (\<lambda>t. (''real_reward'', reward t)) (take n (short_memory ?g1))"
    and e: "g' = ?g1\<lparr> short_memory := short_memory g', actor_mem := actor_mem g',
             multiplot := multiplot g' \<rparr>"
    by blast
  have "send_short_to_long_mem c (Suc n) g = Inr g'"
    using r sm by simp
  moreover have "short_memory g' = drop (Suc n) (short_memory g)"
    using s sm by simp
  moreover have "actor_mem g' = fold (\<lambda>t m. push m t)
         (filter (\<lambda>t. \<bar>reward t\<bar> > MEMORY_REWARD_THRESH c) (take (Suc n) (short_memory g)))
         (actor_mem g)"
    using a sm by simp
  moreover have "multiplot g' =
       multiplot g @ map (\<lambda>t. (''real_reward'', reward t)) (take (Suc n) (short_memory g))"
    using m sm by (simp add: add_entry_def)
  moreover have "g' = g\<lparr> short_memory := short_memory g', actor_mem := actor_mem g',
             multiplot := multiplot g' \<rparr>"
    by (subst e) simp
  ultimately show ?case by blast
qed

lemma fold_push_filter:
  "fold (\<lambda>t m. push m t) (filter (\<lambda>t. \<bar>reward t\<bar> > MEMORY_REWARD_THRESH c) xs) m =
   fold (admit c) xs m"
  by (induction xs arbitrary: m) (simp_all add: admit_def)

lemma affect_short_mem_result:
  "affect_short_mem c r g =
     Inr (if length (short_memory g) > REWARD_AFFECT_PAST_N c
          then g\<lparr> short_memory := shaped c r (tl (short_memory g)),
                  multiplot := add_entry ''real_reward'' (reward (hd (short_memory g))) (multiplot g),
                  actor_mem := admit c (hd (short_memory g)) (actor_mem g) \<rparr>
          else g\<lparr> short_memory := shaped c r (short_memory g) \<rparr>)"
proof (cases "length (short_memory g) > REWARD_AFFECT_PAST_N c")
  case True
  then obtain t rest where "short_memory g = t # rest"
    by (cases "short_memory g") auto
  with True show ?thesis
    by (simp add: affect_short_mem_def bind_err_def Let_def shaped_def admit_def
        shaped_window recency_form del: upt_Suc)
next
  case False
  then show ?thesis
    by (simp add: affect_short_mem_def bind_err_def Let_def shaped_def
        shaped_window recency_form del: upt_Suc)
qed

lemma store_transition_result:
  "\<exists>g'. store_transition c s a r d g = Inr g' \<and>
     short_memory g' =
       (if d then []
        else shaped c r (resident c (short_memory g))
             @ [\<lparr> state = s, action = a,
                  next_state = concat (append_maxlen (INPUT_N_STATES c) (obs_stack g) (next_obs g)),
                  reward = r \<rparr>]) \<and>
     actor_mem g' =
       (if d
        then fold (admit c)
               (shaped c r (resident c (short_memory g))
                @ [\<lparr> state = s, action = a,
                     next_state = concat (append_maxlen (INPUT_N_STATES c) (obs_stack g) (next_obs g)),
                     reward = r \<rparr>])
               (if length (short_memory g) > REWARD_AFFECT_PAST_N c
                then admit c (hd (short_memory g)) (actor_mem g) else actor_mem g)
        else (if length (short_memory g) > REWARD_AFFECT_PAST_N c
              then admit c (hd (short_memory g)) (actor_mem g) else actor_mem g)) \<and>
     obs_stack g' = append_maxlen (INPUT_N_STATES c) (obs_stack g) (next_obs g) \<and>
     next_state_tensor g' = concat (append_maxlen (INPUT_N_STATES c) (obs_stack g) (next_obs g)) \<and>
     actor_model g' = actor_model g \<and> pred_model g' = pred_model g \<and>
     actor_optimizer g' = actor_optimizer g \<and> step g' = step g \<and> eps g' = eps g \<and>
     saved g' = saved g \<and> env g' = env g \<and> next_obs g' = next_obs g"
proof -
  let ?g1 = "if length (short_memory g) > REWARD_AFFECT_PAST_N c
          then g\<lparr> short_memory := shaped c r (tl (short_memory g)),
                  multiplot := add_entry ''real_reward'' (reward (hd (short_memory g))) (multiplot g),
                  actor_mem := admit c (hd (short_memory g)) (actor_mem g) \<rparr>
          else g\<lparr> short_memory := shaped c r (short_memory g) \<rparr>"
  let ?blk = "\<lparr> state = s, action = a,
                  next_state = concat (append_maxlen (INPUT_N_STATES c) (obs_stack g) (next_obs g)),
                  reward = r \<rparr>"
  let ?g2 = "?g1\<lparr> obs_stack := append_maxlen (INPUT_N_STATES c) (obs_stack g) (next_obs g),
                 next_state_tensor := concat (append_maxlen (INPUT_N_STATES c) (obs_stack g) (next_obs g)),
                 short_memory := short_memory ?g1 @ [?blk] \<rparr>"
  have st: "store_transition c s a r d g =
              (if d then send_short_to_long_mem c (length (short_memory ?g2)) ?g2 else Inr ?g2)"
    by (cases "length (short_memory g) > REWARD_AFFECT_PAST_N c")
       (simp_all add: store_transition_def affect_short_mem_result bind_err_def Let_def
          del: send_short_to_long_mem.simps)
  show ?thesis
  proof (cases d)
    case False
    then show ?thesis unfolding st by (simp add: resident_def)
  next
    case True
    obtain g' where r: "send_short_to_long_mem c (length (short_memory ?g2)) ?g2 = Inr g'"
      and sm: "short_memory g' = drop (length (short_memory ?g2)) (short_memory ?g2)"
      and am: "actor_mem g' = fold (\<lambda>t m. push m t)
         (filter (\<lambda>t. \<bar>reward t\<bar> > MEMORY_REWARD_THRESH c)
            (take (length (short_memory ?g2)) (short_memory ?g2))) (actor_mem ?g2)"
      and e: "g' = ?g2\<lparr> short_memory := short_memory g', actor_mem := actor_mem g',
             multiplot := multiplot g' \<rparr>"
      using send_short_to_long_mem_take [of "length (short_memory ?g2)" ?g2 c] by blast
    have fr: "obs_stack g' = obs_stack ?g2" "next_state_tensor g' = next_state_tensor ?g2"
      "actor_model g' = actor_model ?g2" "pred_model g' = pred_model ?g2"
      "actor_optimizer g' = actor_optimizer ?g2" "step g' = step ?g2" "eps g' = eps ?g2"
      "saved g' = saved ?g2" "env g' = env ?g2" "next_obs g' = next_obs ?g2"
      by (subst e, simp)+
    show ?thesis
      unfolding st using True r sm am fr
      by (auto simp: fold_push_filter resident_def admit_def)
  qed
qed

section \<open>One pass through the episode loop\<close>

lemma trained_fields:
  "short_memory (trained w c g) = short_memory g"
  "actor_mem (trained w c g) = actor_mem g"
  "pred_model (trained w c g) = pred_model g"
  "step (trained w c g) = step g"
  "obs_stack (trained w c g) = obs_stack g"
  "next_obs (trained w c g) = next_obs g"
  "next_state_tensor (trained w c g) = next_state_tensor g"
  "env (trained w c g) = env g"
  "saved (trained w c g) = saved g"
  "eps (trained w c g) = decayed c (decayed c (decayed c (eps g)))"
  by (simp_all add: trained_def Let_def)

lemma save_model_fields:
  "short_memory (save_model c g) = short_memory g"
  "actor_mem (save_model c g) = actor_mem g"
  "actor_model (save_model c g) = actor_model g"
  "actor_optimizer (save_model c g) = actor_optimizer g"
  "pred_model (save_model c g) = pred_model g"
  "step (save_model c g) = step g"
  "obs_stack (save_model c g) = obs_stack g"
  "next_obs (save_model c g) = next_obs g"
  "next_state_tensor (save_model c g) = next_state_tensor g"
  "env (save_model c g) = env g"
  "eps (save_model c g) = eps g"
  "multiplot (save_model c g) = multiplot g"
  by (simp_all add: save_model_def)

lemma learn_and_sync_result:
  assumes "learn_and_sync w c g = Inr g'"
  shows "try_learning w c g =
           Inr (if LEARNING_ENABLED c
                then save_model c (if trains c g then trained w c g else g) else g)"
    and "soft_hard_copy (model_adjuster c) (step g) (actor_model g') (pred_model g)
           = Inr (pred_model g')"
    and "g' = (if LEARNING_ENABLED c
               then save_model c (if trains c g then trained w c g else g) else g)
              \<lparr> pred_model := pred_model g', step := Suc (step g) \<rparr>"
proof -
  obtain g1 where t: "try_learning w c g = Inr g1"
    using assms by (cases "try_learning w c g") (simp_all add: learn_and_sync_def bind_err_def)
  then have g1: "g1 = (if LEARNING_ENABLED c
                then save_model c (if trains c g then trained w c g else g) else g)"
    by (auto simp: try_learning_result trains_def split: if_splits)
  have fr: "step g1 = step g" "pred_model g1 = pred_model g"
    by (simp_all add: g1 save_model_fields trained_fields)
  obtain p where p: "soft_hard_copy (model_adjuster c) (step g) (actor_model g1) (pred_model g) = Inr p"
    and g': "g' = g1\<lparr> pred_model := p, step := Suc (step g) \<rparr>"
    using assms t fr
    by (cases "soft_hard_copy (model_adjuster c) (step g) (actor_model g1) (pred_model g)")
       (auto simp: learn_and_sync_def bind_err_def)
  show "try_learning w c g =
           Inr (if LEARNING_ENABLED c
                then save_model c (if trains c g then trained w c g else g) else g)"
    using t g1 by simp
  show "soft_hard_copy (model_adjuster c) (step g) (actor_model g') (pred_model g)
           = Inr (pred_model g')"
    using p g' by simp
  show "g' = (if LEARNING_ENABLED c
               then save_model c (if trains c g then trained w c g else g) else g)
              \<lparr> pred_model := pred_model g', step := Suc (step g) \<rparr>"
    using g' g1 by simp
qed

lemma learn_and_sync_defined:
  assumes "SOFT_COPY_INTERVAL c \<noteq> 0" "HARD_COPY_INTERVAL c \<noteq> 0"
    "LEARNING_ENABLED c \<longrightarrow> SAVE_INTERVAL c \<noteq> 0 \<and> TRAIN_INTERVAL c \<noteq> 0"
  shows "\<exists>g'. learn_and_sync w c g = Inr g'"
  using assms
  by (auto simp: learn_and_sync_def try_learning_result bind_err_def soft_hard_copy_def
      model_adjuster_def Let_def)


lemma loop_body_steps:
  assumes "loop_body w c g = Inr (d, g')"
  shows "\<exists>g1 g2. select_and_step w c g =
            Inr ((next_state_tensor g, chosen_action c g, step_reward w c g, episode_over w c g), g1)
          \<and> store_transition c (next_state_tensor g) (chosen_action c g) (step_reward w c g)
                (episode_over w c g) g1 = Inr g2
          \<and> learn_and_sync w c g2 = Inr g' \<and> d = episode_over w c g
          \<and> 4 \<le> length (Q_values (actor_model g) (next_state_tensor g))
          \<and> short_memory g2 = window_after w c g \<and> actor_mem g2 = store_after w c g
          \<and> obs_stack g2 = append_maxlen (INPUT_N_STATES c) (obs_stack g) (pushed_observation w c g)
          \<and> next_state_tensor g2 = concat (obs_stack g2)
          \<and> actor_model g2 = actor_model g \<and> pred_model g2 = pred_model g
          \<and> actor_optimizer g2 = actor_optimizer g \<and> step g2 = step g
          \<and> eps g2 = decayed c (eps g) \<and> saved g2 = saved g"
proof -
  have len: "4 \<le> length (Q_values (actor_model g) (next_state_tensor g))"
  proof (rule ccontr)
    assume "\<not> 4 \<le> length (Q_values (actor_model g) (next_state_tensor g))"
    then have "select_and_step w c g = Inl IndexError"
      using select_and_step_short [of g w c] by simp
    with assms show False by (simp add: loop_body_def bind_err_def)
  qed
  from select_and_step_result [OF len, of w c] obtain g1 where
    s: "select_and_step w c g =
          Inr ((next_state_tensor g, chosen_action c g, step_reward w c g, episode_over w c g), g1)"
    and f1: "short_memory g1 = short_memory g" "actor_mem g1 = actor_mem g"
      "actor_model g1 = actor_model g" "pred_model g1 = pred_model g"
      "actor_optimizer g1 = actor_optimizer g" "step g1 = step g"
      "obs_stack g1 = obs_stack g" "saved g1 = saved g"
      "eps g1 = decayed c (eps g)" "next_obs g1 = pushed_observation w c g"
    by blast
  from store_transition_result [of c "next_state_tensor g" "chosen_action c g"
      "step_reward w c g" "episode_over w c g" g1]
  obtain g2 where
    t: "store_transition c (next_state_tensor g) (chosen_action c g) (step_reward w c g)
          (episode_over w c g) g1 = Inr g2"
    and sm: "short_memory g2 = window_after w c g"
    and am: "actor_mem g2 = store_after w c g"
    and f2: "obs_stack g2 = append_maxlen (INPUT_N_STATES c) (obs_stack g) (pushed_observation w c g)"
      "next_state_tensor g2 = concat (append_maxlen (INPUT_N_STATES c) (obs_stack g) (pushed_observation w c g))"
      "actor_model g2 = actor_model g" "pred_model g2 = pred_model g"
      "actor_optimizer g2 = actor_optimizer g" "step g2 = step g" "eps g2 = decayed c (eps g)"
      "saved g2 = saved g"
    unfolding window_after_def store_after_def new_record_def Let_def f1 [symmetric]
    by (auto simp: f1)
  have "learn_and_sync w c g2 = Inr g' \<and> d = episode_over w c g"
    using assms s t
    by (cases "learn_and_sync w c g2") (auto simp: loop_body_def bind_err_def)
  with s t len sm am f2 show ?thesis by simp
qed


lemma loop_body_result:
  assumes "loop_body w c g = Inr (d, g')"
  shows "d = episode_over w c g"
    and "short_memory g' = window_after w c g"
    and "actor_mem g' = store_after w c g"
    and "step g' = Suc (step g)"
    and "obs_stack g' = append_maxlen (INPUT_N_STATES c) (obs_stack g) (pushed_observation w c g)"
    and "next_state_tensor g' = concat (obs_stack g')"
    and "soft_hard_copy (model_adjuster c) (step g) (actor_model g') (pred_model g)
           = Inr (pred_model g')"
    and "eps g' =
           (if LEARNING_ENABLED c \<and> BATCH_SIZE c < length (memory (store_after w c g))
               \<and> step g mod TRAIN_INTERVAL c = 0
            then decayed c (decayed c (decayed c (decayed c (eps g))))
            else decayed c (eps g))"
    and "4 \<le> length (Q_values (actor_model g) (next_state_tensor g))"
proof -
  from loop_body_steps [OF assms] obtain g1 g2 where
    ls: "learn_and_sync w c g2 = Inr g'" and d: "d = episode_over w c g"
    and len: "4 \<le> length (Q_values (actor_model g) (next_state_tensor g))"
    and f2: "short_memory g2 = window_after w c g" "actor_mem g2 = store_after w c g"
      "obs_stack g2 = append_maxlen (INPUT_N_STATES c) (obs_stack g) (pushed_observation w c g)"
      "next_state_tensor g2 = concat (obs_stack g2)"
      "actor_model g2 = actor_model g" "pred_model g2 = pred_model g"
      "actor_optimizer g2 = actor_optimizer g" "step g2 = step g"
      "eps g2 = decayed c (eps g)" "saved g2 = saved g"
    by blast
  note r = learn_and_sync_result [OF ls]
  have fr: "short_memory g' = short_memory g2" "actor_mem g' = actor_mem g2"
    "obs_stack g' = obs_stack g2" "next_state_tensor g' = next_state_tensor g2"
    "eps g' = (if trains c g2 then decayed c (decayed c (decayed c (eps g2))) else eps g2)"
    by (subst r(3), auto simp: save_model_fields trained_fields trains_def)+
  show "d = episode_over w c g" by (rule d)
  show "short_memory g' = window_after w c g" using fr f2 by simp
  show "actor_mem g' = store_after w c g" using fr f2 by simp
  show "step g' = Suc (step g)" by (subst r(3)) (simp add: f2)
  show "obs_stack g' = append_maxlen (INPUT_N_STATES c) (obs_stack g) (pushed_observation w c g)"
    using fr f2 by simp
  show "next_state_tensor g' = concat (obs_stack g')" using fr f2 by simp
  show "soft_hard_copy (model_adjuster c) (step g) (actor_model g') (pred_model g)
           = Inr (pred_model g')"
    using r(2) f2 by simp
  show "eps g' =
           (if LEARNING_ENABLED c \<and> BATCH_SIZE c < length (memory (store_after w c g))
               \<and> step g mod TRAIN_INTERVAL c = 0
            then decayed c (decayed c (decayed c (decayed c (eps g))))
            else decayed c (eps g))"
    using fr(5) f2 by (simp add: trains_def)
  show "4 \<le> length (Q_values (actor_model g) (next_state_tensor g))" by (rule len)
qed

lemma loop_body_defined:
  assumes "4 \<le> length (Q_values (actor_model g) (next_state_tensor g))"
    and "SOFT_COPY_INTERVAL c \<noteq> 0" "HARD_COPY_INTERVAL c \<noteq> 0"
    and "LEARNING_ENABLED c \<longrightarrow> SAVE_INTERVAL c \<noteq> 0 \<and> TRAIN_INTERVAL c \<noteq> 0"
  shows "\<exists>g'. loop_body w c g = Inr (episode_over w c g, g')"
proof -
  from select_and_step_result [OF assms(1), of w c] obtain g1 where
    s: "select_and_step w c g =
          Inr ((next_state_tensor g, chosen_action c g, step_reward w c g, episode_over w c g), g1)"
    by blast
  from store_transition_result [of c "next_state_tensor g" "chosen_action c g"
      "step_reward w c g" "episode_over w c g" g1]
  obtain g2 where
    t: "store_transition c (next_state_tensor g) (chosen_action c g) (step_reward w c g)
          (episode_over w c g) g1 = Inr g2"
    by blast
  from learn_and_sync_defined [OF assms(2,3,4), of w g2] obtain g3 where
    l: "learn_and_sync w c g2 = Inr g3"
    by blast
  show ?thesis
    using s t l by (simp add: loop_body_def bind_err_def)
qed

lemma shaped_length: "length (shaped c r w) = length w"
  by (simp add: shaped_def del: upt_Suc)

lemma shaped_alt:
  "shaped c r w =
     (if r < fst (REWARD_AFFECT_THRESH c) \<or> r > snd (REWARD_AFFECT_THRESH c)
      then map (\<lambda>j. (w ! j)\<lparr> reward := reward (w ! j) + r / real (length w - j) \<rparr>) [0..<length w]
      else w)"
  by (simp only: shaped_def recency_form)

lemma map_index: "map (\<lambda>j. f (w ! j)) [0..<length w] = map f w"
  by (rule nth_equalityI) simp_all

lemma shaped_states: "map state (shaped c r w) = map state w"
  by (simp add: shaped_alt comp_def map_index)

lemma fold_admit_unchanged:
  "(\<forall>t \<in> set xs. \<bar>reward t\<bar> \<le> MEMORY_REWARD_THRESH c) \<Longrightarrow> fold (admit c) xs m = m"
  by (induction xs arbitrary: m) (simp_all add: admit_def)

lemma window_after_length:
  "length (short_memory g) \<le> Suc (REWARD_AFFECT_PAST_N c) \<Longrightarrow>
   length (window_after w c g) \<le> Suc (REWARD_AFFECT_PAST_N c)"
  by (auto simp: window_after_def shaped_length resident_def)

lemma example_Q_values: "Q_values example_net v = [0, 1, 0, 0]"
  by (simp add: Q_values_def example_net_def Linear_forward_def leaky_relu_def hidden_def)

lemma example_defined:
  assumes "actor_model g = example_net"
  shows "\<exists>g'. loop_body example_world defaults g = Inr (episode_over example_world defaults g, g')"
  by (rule loop_body_defined) (simp_all add: assms example_Q_values defaults_def)

lemma model_infer_loop_window:
  "model_infer_loop n w c g = Some (Inr g') \<Longrightarrow> short_memory g' = []"
proof (induction n arbitrary: g)
  case 0
  then show ?case by simp
next
  case (Suc n)
  show ?case
  proof (cases "loop_body w c g")
    case (Inl e)
    with Suc.prems show ?thesis by simp
  next
    case (Inr p)
    obtain d g1 where p: "p = (d, g1)" by (cases p)
    show ?thesis
    proof (cases d)
      case True
      with Suc.prems Inr p have "g' = g1" by simp
      moreover have "short_memory g1 = window_after w c g" "d = episode_over w c g"
        using loop_body_result(1,2) [of w c g d g1] Inr p by simp_all
      ultimately show ?thesis using True by (simp add: window_after_def)
    next
      case False
      with Suc.prems Inr p have "model_infer_loop n w c g1 = Some (Inr g')" by simp
      then show ?thesis by (rule Suc.IH)
    qed
  qed
qed

lemma example_terminal:
  "episode_over example_world defaults (g\<lparr> env := 2 \<rparr>)"
  "step_reward example_world defaults (g\<lparr> env := 2 \<rparr>) = 100"
  "reset_observation example_world defaults (g\<lparr> env := 2 \<rparr>) = [7]"
  by (simp_all add: episode_over_def step_reward_def reset_observation_def env_response_def
      example_world_def)

lemma append_maxlen_full:
  "length xs = n \<Longrightarrow> 0 < n \<Longrightarrow> append_maxlen n xs x = tl xs @ [x]"
  by (cases xs) (simp_all add: append_maxlen_def)

lemma trained_a_loss:
  "length (filter (\<lambda>e. fst e = ''a_loss'') (multiplot (trained w c g))) =
   Suc (length (filter (\<lambda>e. fst e = ''a_loss'') (multiplot g)))"
  by (simp add: trained_def Let_def)

lemma model_train_trained:
  assumes "BATCH_SIZE c \<le> length (memory (actor_mem g))"
  shows "\<exists>loss g1. model_train w c (BATCH_SIZE c) g = Inr (loss, g1) \<and>
           actor_model (trained w c g) = actor_model g1 \<and>
           actor_optimizer (trained w c g) = actor_optimizer g1 \<and>
           multiplot (trained w c g) = multiplot g1 @ [(''a_loss'', loss)]"
  using assms by (simp add: model_train_result trained_def Let_def)

section \<open>Parameters under synchronization\<close>

lemma map2_append:
  "length xs = length ys \<Longrightarrow> map2 f (xs @ us) (ys @ vs) = map2 f xs ys @ map2 f us vs"
  by simp

lemma concat_map2:
  "map length A = map length B \<Longrightarrow> concat (map2 (map2 f) A B) = map2 f (concat A) (concat B)"
proof (induction A arbitrary: B)
  case Nil
  then show ?case by simp
next
  case (Cons a A)
  then obtain b B' where B: "B = b # B'" by (cases B) auto
  with Cons.prems have l: "length a = length b" and r: "map length A = map length B'" by simp_all
  show ?case unfolding B using Cons.IH [OF r] l by simp
qed

lemma Linear_parameters_map2:
  assumes "Linear_same_shape lo lt"
  shows "Linear_parameters (map_Linear2 f lo lt) =
         map2 f (Linear_parameters lo) (Linear_parameters lt)"
proof -
  from assms have s: "map length (weight lo) = map length (weight lt)"
    by (simp add: Linear_same_shape_def)
  then have "length (concat (weight lo)) = length (concat (weight lt))"
    by (simp add: length_concat)
  then show ?thesis
    by (simp add: Linear_parameters_def map_Linear2_def concat_map2 [OF s])
qed

lemma Linear_parameters_length:
  "Linear_same_shape lo lt \<Longrightarrow> length (Linear_parameters lo) = length (Linear_parameters lt)"
  by (simp add: Linear_same_shape_def Linear_parameters_def length_concat)

lemma parameters_map2:
  assumes "same_shape online target"
  shows "parameters (map_params2 f online target) =
         map2 f (parameters online) (parameters target)"
  using assms
  by (simp add: parameters_def map_params2_def same_shape_def Linear_parameters_map2
      Linear_parameters_length)

lemma copy_after_blend:
  "copy_params online (map_params2 f online target) = copy_params online target"
  by (simp add: copy_params_def map_params2_def)

lemma soft_hard_copy_result:
  assumes "soft_copy_interval adj \<noteq> 0" "hard_copy_interval adj \<noteq> 0"
  shows "soft_hard_copy adj n online target =
     Inr (if n mod hard_copy_interval adj = 0 then copy_params online target
          else if n mod soft_copy_interval adj = 0
               then map_params2 (blend (tau adj)) online target
               else target)"
  using assms by (simp add: soft_hard_copy_def Let_def copy_after_blend)

lemma loop_body_untrained:
  assumes "loop_body w c g = Inr (d, g')"
    and "\<not> (LEARNING_ENABLED c \<and> BATCH_SIZE c < length (memory (store_after w c g))
            \<and> step g mod TRAIN_INTERVAL c = 0)"
  shows "actor_model g' = actor_model g" "actor_optimizer g' = actor_optimizer g"
proof -
  from loop_body_steps [OF assms(1)] obtain h where
    ls: "learn_and_sync w c h = Inr g'" and f: "actor_mem h = store_after w c g"
      "step h = step g" "actor_model h = actor_model g" "actor_optimizer h = actor_optimizer g"
    by blast
  note r = learn_and_sync_result [OF ls]
  have t: "\<not> trains c h" using assms(2) f by (simp add: trains_def)
  show "actor_model g' = actor_model g"
    by (subst r(3)) (simp add: t save_model_fields f)
  show "actor_optimizer g' = actor_optimizer g"
    by (subst r(3)) (simp add: t save_model_fields f)
qed

section \<open>The arg-max and the target of a training step\<close>

lemma max_list_ge: "x \<in> set xs \<Longrightarrow> x \<le> max_list xs"
  by (induction xs rule: max_list.induct) auto

lemma max_list_mem: "xs \<noteq> [] \<Longrightarrow> max_list xs \<in> set xs"
  by (induction xs rule: max_list.induct) (auto simp: max_def)

lemma argmax_props:
  assumes "xs \<noteq> []"
  shows "argmax xs < length xs"
    and "xs ! argmax xs = max_list xs"
    and "\<forall>j < length xs. xs ! j \<le> xs ! argmax xs"
    and "\<forall>j < argmax xs. xs ! j < xs ! argmax xs"
proof -
  let ?P = "\<lambda>x. x < max_list xs"
  have "\<exists>x \<in> set xs. \<not> ?P x" using max_list_mem [OF assms] by auto
  then have "takeWhile ?P xs \<noteq> xs" by simp
  then have "length (takeWhile ?P xs) \<noteq> length xs"
    using takeWhile_eq_take [of ?P xs] by auto
  then show l: "argmax xs < length xs"
    unfolding argmax_def using length_takeWhile_le [of ?P xs] by simp
  have n: "\<not> ?P (xs ! argmax xs)"
    using l unfolding argmax_def by (rule nth_length_takeWhile)
  have "xs ! argmax xs \<le> max_list xs" using l by (simp add: max_list_ge)
  with n show m: "xs ! argmax xs = max_list xs" by simp
  show "\<forall>j < length xs. xs ! j \<le> xs ! argmax xs"
    unfolding m by (simp add: max_list_ge)
  show "\<forall>j < argmax xs. xs ! j < xs ! argmax xs"
  proof (intro allI impI)
    fix j assume j: "j < argmax xs"
    then have "j < length (takeWhile ?P xs)" by (simp add: argmax_def)
    then have "takeWhile ?P xs ! j \<in> set (takeWhile ?P xs)" by simp
    then have "?P (takeWhile ?P xs ! j)" by (rule set_takeWhileD [THEN conjunct2])
    moreover have "takeWhile ?P xs ! j = xs ! j"
      using j by (simp add: argmax_def takeWhile_nth)
    ultimately show "xs ! j < xs ! argmax xs" unfolding m by simp
  qed
qed

lemma ddqn_target_values:
  "fst (ddqn_target c nsb rs g) =
     map2 (\<lambda>r s'. r + Q_values (pred_model g) s' ! argmax (Q_values (actor_model g) s') * GAMMA c)
       rs nsb"
proof -
  have "map2 (\<lambda>r q. r + q * GAMMA c) rs
          (gather (map (Q_values p) nsb) (map argmax (map (Q_values a) nsb))) =
        map2 (\<lambda>r s'. r + Q_values p s' ! argmax (Q_values a s') * GAMMA c) rs nsb" for p a
  proof (induction nsb arbitrary: rs)
    case Nil
    then show ?case by (simp add: gather_def)
  next
    case (Cons s nsb)
    then show ?case by (cases rs) (simp_all add: gather_def)
  qed
  then show ?thesis
    by (simp add: ddqn_target_def forward_training Let_def)
qed

lemma example_sampled:
  "sampled_batch (example_globals\<lparr> actor_mem := \<lparr> capacity = 1000000,
                                                  memory = [example_record 1] \<rparr> \<rparr>) 1
   = [example_record 1]"
  by (simp add: sampled_batch_def rand_take_def pick_def example_globals_def)

lemma forward_surprisal_config:
  "forward (c\<lparr> SURPRISAL_BIAS := b, SURPRISAL_WEIGHT := s \<rparr>) = forward c"
  by (intro ext) (simp add: forward_def greedy_epsilon_def)

section \<open>The reward-shaping window: shaping, eviction and admission\<close>

text \<open>
  Claim C3. A call \<open>affect_short_mem(reward)\<close> never raises. Let \<open>w\<close> be the window
  that is resident when the shaping rule runs (the oldest record has been sent on if
  the window held more than \<open>REWARD_AFFECT_PAST_N\<close> records). If the reward is below
  \<open>REWARD_AFFECT_THRESH[0]\<close> or above \<open>REWARD_AFFECT_THRESH[1]\<close>, the record at
  recency \<open>i\<close> (\<open>i = 1\<close> for the most recent one) has \<open>reward / i\<close> added to its
  reward and is otherwise unchanged, for every record of \<open>w\<close>, however short \<open>w\<close>
  is; if the reward lies inside the closed interval, the window is \<open>w\<close> as it was.
\<close>

theorem reward_shaping:
  "\<exists>g'. affect_short_mem c r g = Inr g' \<and>
     (let w = (if length (short_memory g) > REWARD_AFFECT_PAST_N c
               then tl (short_memory g) else short_memory g)
      in if r < fst (REWARD_AFFECT_THRESH c) \<or> r > snd (REWARD_AFFECT_THRESH c)
         then short_memory g' =
                rev (map2 (\<lambda>i t. t\<lparr> reward := reward t + r / real i \<rparr>)
                       [1..<Suc (length w)] (rev w))
         else short_memory g' = w)"
proof -
  obtain g' where g': "affect_short_mem c r g = Inr g'"
    and w: "short_memory g' =
       (let w = (if length (short_memory g) > REWARD_AFFECT_PAST_N c
                 then tl (short_memory g) else short_memory g)
        in if r < fst (REWARD_AFFECT_THRESH c) \<or> r > snd (REWARD_AFFECT_THRESH c)
           then fold (affect_one r) [0..<length w] w else w)"
    using affect_short_mem_window [of c r g] by blast
  have "let w = (if length (short_memory g) > REWARD_AFFECT_PAST_N c
               then tl (short_memory g) else short_memory g)
      in if r < fst (REWARD_AFFECT_THRESH c) \<or> r > snd (REWARD_AFFECT_THRESH c)
         then short_memory g' =
                rev (map2 (\<lambda>i t. t\<lparr> reward := reward t + r / real i \<rparr>)
                       [1..<Suc (length w)] (rev w))
         else short_memory g' = w"
    unfolding w Let_def shaped_window recency_form by (simp del: upt_Suc)
  with g' show ?thesis by blast
qed

text \<open>
  The example of the specification: a window with rewards \<open>0.1, 0.2, 0.3\<close> (oldest
  first) and an incoming reward of \<open>10\<close>, under the script's thresholds.
\<close>

theorem reward_shaping_example:
  "\<exists>g'. affect_short_mem defaults 10
          (example_globals\<lparr> short_memory := map example_record [1 / 10, 2 / 10, 3 / 10] \<rparr>)
        = Inr g' \<and>
     map reward (short_memory g') = [1 / 10 + 10 / 3, 2 / 10 + 10 / 2, 3 / 10 + 10 / 1]"
  using reward_shaping [of defaults 10
          "example_globals\<lparr> short_memory := map example_record [1 / 10, 2 / 10, 3 / 10] \<rparr>"]
  by (auto simp: defaults_def example_record_def Let_def)

text \<open>
  Claim C5. Flushing the \<open>n\<close> oldest records of the window succeeds whenever the
  window holds at least \<open>n\<close> records. The replay store afterwards is the store
  before, to which the flushed records have been offered in order: a record is pushed
  if the absolute value of its reward is strictly greater than
  \<open>MEMORY_REWARD_THRESH\<close>, and otherwise the store is left as it is. In particular,
  when every flushed record has \<open>abs(reward) \<le> MEMORY_REWARD_THRESH\<close> the store and
  its size are unchanged.
\<close>

theorem flush_admission:
  assumes "n \<le> length (short_memory g)"
  shows "\<exists>g'. send_short_to_long_mem c n g = Inr g' \<and>
     short_memory g' = drop n (short_memory g) \<and>
     actor_mem g' =
       fold (\<lambda>t m. if \<bar>reward t\<bar> > MEMORY_REWARD_THRESH c then push m t else m)
         (take n (short_memory g)) (actor_mem g) \<and>
     ((\<forall>t \<in> set (take n (short_memory g)). \<bar>reward t\<bar> \<le> MEMORY_REWARD_THRESH c) \<longrightarrow>
        actor_mem g' = actor_mem g \<and>
        length (memory (actor_mem g')) = length (memory (actor_mem g)))"
proof -
  from send_short_to_long_mem_take [OF assms, of c] obtain g' where
    r: "send_short_to_long_mem c n g = Inr g'"
    and s: "short_memory g' = drop n (short_memory g)"
    and a: "actor_mem g' = fold (\<lambda>t m. push m t)
         (filter (\<lambda>t. \<bar>reward t\<bar> > MEMORY_REWARD_THRESH c) (take n (short_memory g)))
         (actor_mem g)"
    by blast
  have a': "actor_mem g' = fold (admit c) (take n (short_memory g)) (actor_mem g)"
    using a by (simp add: fold_push_filter)
  have adm: "admit c = (\<lambda>t m. if \<bar>reward t\<bar> > MEMORY_REWARD_THRESH c then push m t else m)"
    by (simp add: admit_def fun_eq_iff)
  have "(\<forall>t \<in> set (take n (short_memory g)). \<bar>reward t\<bar> \<le> MEMORY_REWARD_THRESH c) \<longrightarrow>
        actor_mem g' = actor_mem g"
    using a' by (simp add: fold_admit_unchanged)
  with r s a' show ?thesis unfolding adm by auto
qed

text \<open>
  Under the script's threshold of zero, a record with reward \<open>0\<close> is dropped and one
  with reward \<open>3\<close> is stored.
\<close>

theorem flush_admission_example:
  "(2::nat) \<le> length (short_memory
       (example_globals\<lparr> short_memory := [example_record 0, example_record 3] \<rparr>)) \<and>
   (\<exists>g'. send_short_to_long_mem defaults 2
            (example_globals\<lparr> short_memory := [example_record 0, example_record 3] \<rparr>) = Inr g' \<and>
          short_memory g' = [] \<and> memory (actor_mem g') = [example_record 3])"
  using flush_admission [of 2 "example_globals\<lparr> short_memory := [example_record 0, example_record 3] \<rparr>" defaults]
  by (auto simp: defaults_def example_record_def example_globals_def push_def)

text \<open>
  Claim C4, as amended. The guard of line 216 is \<open>len(short_memory) > REWARD_AFFECT_PAST_N\<close>.
  Observing a reward and appending the new record (lines 301 to 311, the episode not
  being over) never raises. If the window held more than \<open>REWARD_AFFECT_PAST_N\<close>
  records, exactly its oldest record is sent to the conditional admission of the replay
  store before the new record is appended, and the length of the window is what it was;
  otherwise nothing is sent and the window grows by one. A window of at most
  \<open>REWARD_AFFECT_PAST_N + 1\<close> records therefore still has at most that many after the
  operation, and after a whole pass through the loop.
\<close>

theorem window_eviction:
  "(\<exists>g'. store_transition c s a r False g = Inr g' \<and>
      (if length (short_memory g) > REWARD_AFFECT_PAST_N c
       then length (short_memory g') = length (short_memory g) \<and>
            map state (short_memory g') = map state (tl (short_memory g)) @ [s] \<and>
            actor_mem g' =
              (if \<bar>reward (hd (short_memory g))\<bar> > MEMORY_REWARD_THRESH c
               then push (actor_mem g) (hd (short_memory g)) else actor_mem g)
       else length (short_memory g') = Suc (length (short_memory g)) \<and>
            map state (short_memory g') = map state (short_memory g) @ [s] \<and>
            actor_mem g' = actor_mem g) \<and>
      (length (short_memory g) \<le> Suc (REWARD_AFFECT_PAST_N c) \<longrightarrow>
         length (short_memory g') \<le> Suc (REWARD_AFFECT_PAST_N c))) \<and>
   (loop_body w c g = Inr (d, g2) \<and> length (short_memory g) \<le> Suc (REWARD_AFFECT_PAST_N c) \<longrightarrow>
      length (short_memory g2) \<le> Suc (REWARD_AFFECT_PAST_N c))"
proof -
  from store_transition_result [of c s a r False g] obtain g' where
    r: "store_transition c s a r False g = Inr g'"
    and sm: "short_memory g' = shaped c r (resident c (short_memory g))
             @ [\<lparr> state = s, action = a,
                  next_state = concat (append_maxlen (INPUT_N_STATES c) (obs_stack g) (next_obs g)),
                  reward = r \<rparr>]"
    and am: "actor_mem g' = (if length (short_memory g) > REWARD_AFFECT_PAST_N c
              then admit c (hd (short_memory g)) (actor_mem g) else actor_mem g)"
    by auto
  have "(if length (short_memory g) > REWARD_AFFECT_PAST_N c
       then length (short_memory g') = length (short_memory g) \<and>
            map state (short_memory g') = map state (tl (short_memory g)) @ [s] \<and>
            actor_mem g' =
              (if \<bar>reward (hd (short_memory g))\<bar> > MEMORY_REWARD_THRESH c
               then push (actor_mem g) (hd (short_memory g)) else actor_mem g)
       else length (short_memory g') = Suc (length (short_memory g)) \<and>
            map state (short_memory g') = map state (short_memory g) @ [s] \<and>
            actor_mem g' = actor_mem g) \<and>
      (length (short_memory g) \<le> Suc (REWARD_AFFECT_PAST_N c) \<longrightarrow>
         length (short_memory g') \<le> Suc (REWARD_AFFECT_PAST_N c))"
    unfolding sm am by (auto simp: shaped_length shaped_states resident_def admit_def)
  moreover have "loop_body w c g = Inr (d, g2) \<and> length (short_memory g) \<le> Suc (REWARD_AFFECT_PAST_N c) \<longrightarrow>
      length (short_memory g2) \<le> Suc (REWARD_AFFECT_PAST_N c)"
    using loop_body_result(2) [of w c g d g2] window_after_length [of g c w] by auto
  ultimately show ?thesis using r by blast
qed

text \<open>
  With the script's \<open>REWARD_AFFECT_PAST_N = 10\<close>: a window of eleven records loses its
  oldest record (reward \<open>1\<close>, which is admitted) and has eleven records again.
\<close>

theorem window_eviction_example:
  "\<exists>g' d g2.
     store_transition defaults [0, 0, 0, 0] 1 0 False
       (example_globals\<lparr> short_memory := map example_record [1, 2, 3, 4, 5, 6, 7, 8, 9, 10, 11] \<rparr>)
       = Inr g' \<and>
     length (short_memory g') = 11 \<and>
     memory (actor_mem g') = [example_record 1] \<and>
     loop_body example_world defaults
       (example_globals\<lparr> short_memory := map example_record [1, 2, 3, 4, 5, 6, 7, 8, 9, 10, 11] \<rparr>)
       = Inr (d, g2) \<and>
     length (short_memory g2) \<le> 11"
proof -
  let ?g = "example_globals\<lparr> short_memory := map example_record [1, 2, 3, 4, 5, 6, 7, 8, 9, 10, 11] \<rparr>"
  have "actor_model ?g = example_net" by (simp add: example_globals_def)
  from example_defined [OF this] obtain g2 where
    l: "loop_body example_world defaults ?g = Inr (episode_over example_world defaults ?g, g2)"
    by blast
  show ?thesis
    using window_eviction [of defaults "[0, 0, 0, 0]" 1 0 ?g example_world
        "episode_over example_world defaults ?g" g2] l
    by (auto simp: defaults_def example_record_def example_globals_def push_def)
qed

text \<open>
  The claim as stated fails: a window that holds exactly \<open>REWARD_AFFECT_PAST_N = 10\<close>
  records is not flushed, so after the new record is appended it holds eleven records
  and the replay store is still empty.
\<close>

theorem window_eviction_counterexample:
  "(case store_transition defaults [0, 0, 0, 0] 1 0 False
          (example_globals\<lparr> short_memory := map example_record [1, 2, 3, 4, 5, 6, 7, 8, 9, 10] \<rparr>)
    of Inl e \<Rightarrow> None
     | Inr g' \<Rightarrow> Some (length (short_memory g'), memory (actor_mem g')))
   = Some (REWARD_AFFECT_PAST_N defaults + 1, [])"
proof -
  let ?g = "example_globals\<lparr> short_memory := map example_record [1, 2, 3, 4, 5, 6, 7, 8, 9, 10] \<rparr>"
  from store_transition_result [of defaults "[0, 0, 0, 0]" 1 0 False ?g] obtain g' where
    r: "store_transition defaults [0, 0, 0, 0] 1 0 False ?g = Inr g'"
    and sm: "short_memory g' = shaped defaults 0 (resident defaults (short_memory ?g))
             @ [\<lparr> state = [0, 0, 0, 0], action = 1,
                  next_state = concat (append_maxlen (INPUT_N_STATES defaults) (obs_stack ?g) (next_obs ?g)),
                  reward = 0 \<rparr>]"
    and am: "actor_mem g' = (if length (short_memory ?g) > REWARD_AFFECT_PAST_N defaults
              then admit defaults (hd (short_memory ?g)) (actor_mem ?g) else actor_mem ?g)"
    by auto
  show ?thesis
    unfolding r sum.case sm am
    by (simp add: shaped_length resident_def defaults_def example_globals_def)
qed

section \<open>The end of an episode\<close>

text \<open>
  Claim C7. In a pass through the loop that does not raise, \<open>done\<close> is set exactly
  when the simulator reports \<open>terminated\<close> or \<open>truncated\<close>. In that case the
  window is empty after the pass, and every record that was resident, with the
  shaping by this step's reward applied, followed by the record created in this pass,
  has been offered in this order to the conditional admission of the replay store
  (after the oldest record, if the window held more than \<open>REWARD_AFFECT_PAST_N\<close>
  records). Hence the window is empty whenever \<open>model_infer\<close> returns.
\<close>

theorem episode_end_flush:
  "(loop_body w c g = Inr (d, g') \<longrightarrow>
      (case env_response w c g of (ob, r, terminated, truncated) \<Rightarrow>
         d = (terminated \<or> truncated) \<and>
         (d \<longrightarrow> short_memory g' = [] \<and>
            actor_mem g' =
              fold (admit c)
                (shaped c r (resident c (short_memory g)) @ [new_record w c g])
                (if length (short_memory g) > REWARD_AFFECT_PAST_N c
                 then admit c (hd (short_memory g)) (actor_mem g) else actor_mem g)))) \<and>
   (model_infer n w c g = Some (Inr g2) \<longrightarrow> short_memory g2 = [])"
proof -
  have "case env_response w c g of (ob, r, terminated, truncated) \<Rightarrow>
         d = (terminated \<or> truncated) \<and>
         (d \<longrightarrow> short_memory g' = [] \<and>
            actor_mem g' =
              fold (admit c)
                (shaped c r (resident c (short_memory g)) @ [new_record w c g])
                (if length (short_memory g) > REWARD_AFFECT_PAST_N c
                 then admit c (hd (short_memory g)) (actor_mem g) else actor_mem g))"
    if l: "loop_body w c g = Inr (d, g')"
    using loop_body_result(1,2,3) [OF l]
    by (auto simp: case_prod_beta episode_over_def window_after_def store_after_def
        step_reward_def Let_def)
  moreover have "short_memory g2 = []" if "model_infer n w c g = Some (Inr g2)"
    using that model_infer_loop_window [of n w c "g\<lparr> cumulative_reward := 0 \<rparr>" g2]
    by (simp add: model_infer_def)
  ultimately show ?thesis by blast
qed

text \<open>
  A pass in which the simulator ends the episode with reward \<open>100\<close>, the window
  holding rewards \<open>1\<close> and \<open>2\<close>: the three records reach the replay store with
  rewards \<open>1 + 100 / 2\<close>, \<open>2 + 100 / 1\<close> and \<open>100\<close>, and the window is empty.
\<close>

theorem episode_end_flush_example:
  "\<exists>g'. loop_body example_world defaults
          (example_globals\<lparr> short_memory := [example_record 1, example_record 2], env := 2 \<rparr>)
        = Inr (True, g') \<and>
        model_infer 1 example_world defaults
          (example_globals\<lparr> short_memory := [example_record 1, example_record 2], env := 2 \<rparr>)
        = Some (Inr g') \<and>
        short_memory g' = [] \<and>
        map reward (memory (actor_mem g')) = [51, 102, 100]"
proof -
  let ?g = "example_globals\<lparr> short_memory := [example_record 1, example_record 2], env := 2 \<rparr>"
  have a: "actor_model ?g = example_net" by (simp add: example_globals_def)
  have o: "episode_over example_world defaults ?g" by (rule example_terminal)
  from example_defined [OF a] o obtain g' where
    l: "loop_body example_world defaults ?g = Inr (True, g')"
    by auto
  have z: "?g\<lparr> cumulative_reward := 0 \<rparr> = ?g" by (simp add: example_globals_def)
  have m: "model_infer 1 example_world defaults ?g = Some (Inr g')"
    unfolding model_infer_def z One_nat_def using l by simp
  have r: "env_response example_world defaults ?g = ([3], 100, True, False)"
    by (simp add: env_response_def example_world_def)
  note t = episode_end_flush [of example_world defaults ?g True g' 1 g', unfolded r prod.case]
  have n: "new_record example_world defaults ?g =
             \<lparr> state = [0, 0, 0, 0], action = chosen_action defaults ?g,
               next_state = [0, 0, 0, 7], reward = 100 \<rparr>"
    using example_terminal [of "example_globals\<lparr> short_memory := [example_record 1, example_record 2] \<rparr>"]
    by (simp add: new_record_def pushed_observation_def append_maxlen_def defaults_def
        example_globals_def)
  have "short_memory g' = [] \<and> map reward (memory (actor_mem g')) = [51, 102, 100]"
    using t l m unfolding n
    by (simp add: defaults_def example_record_def example_globals_def push_def
        shaped_def resident_def admit_def)
  with l m show ?thesis by (intro exI [of _ g']) simp
qed

text \<open>
  Claim C10. Consider a pass through the loop that ends the episode. The simulator is
  reset (line 292) before the record of the pass is built (line 309), so the observation
  pushed on the observation stack is the first observation after the reset. The record
  of the pass has the observation stack before the pass as its state, the new stack as
  its next state and the reward of this (last) step, the same reward that has just
  shaped the older records; it is the last record offered to the replay store. When the
  stack was full, the new stack is the old one without its oldest observation followed
  by the observation after the reset: the loop does not refill the stack, which only
  \<open>main\<close> does (lines 404 to 410).
\<close>

theorem terminal_transition:
  assumes "loop_body w c g = Inr (True, g')"
  shows "(let a = chosen_action c g;
              ((ob, r, terminated, truncated), e1) = env_step w (env g) a;
              (ob0, e2) = env_reset w e1;
              stack = append_maxlen (INPUT_N_STATES c) (obs_stack g) ob0;
              terminal = \<lparr> state = next_state_tensor g, action = a,
                           next_state = concat stack, reward = r \<rparr>
          in (terminated \<or> truncated) \<and>
             actor_mem g' =
               admit c terminal
                 (fold (admit c) (shaped c r (resident c (short_memory g)))
                    (if length (short_memory g) > REWARD_AFFECT_PAST_N c
                     then admit c (hd (short_memory g)) (actor_mem g) else actor_mem g)) \<and>
             obs_stack g' = stack \<and> next_state_tensor g' = concat stack \<and>
             (length (obs_stack g) = INPUT_N_STATES c \<and> 0 < INPUT_N_STATES c \<longrightarrow>
                stack = tl (obs_stack g) @ [ob0] \<and>
                next_state terminal = concat (tl (obs_stack g)) @ ob0)) \<and>
         obs_stack (main_reinit w c g) = replicate (INPUT_N_STATES c) (fst (env_reset w (env g)))"
proof -
  note r = loop_body_result [OF assms]
  have over: "episode_over w c g" using r(1) by simp
  have "obs_stack (main_reinit w c g) = replicate (INPUT_N_STATES c) (fst (env_reset w (env g)))"
    by (simp add: main_reinit_def case_prod_beta Let_def)
  then show ?thesis
    using over r(3,5,6)
    by (auto simp: Let_def case_prod_beta store_after_def new_record_def pushed_observation_def
        reset_observation_def step_reward_def env_response_def episode_over_def
        append_maxlen_full)
qed

text \<open>
  The episode ends with reward \<open>100\<close> while the stack holds the observations
  \<open>0, 1, 2, 3\<close>, and the reset yields the observation \<open>7\<close>: the stored record has
  next state \<open>1, 2, 3, 7\<close> and reward \<open>100\<close>.
\<close>

theorem terminal_transition_example:
  "\<exists>g'. loop_body example_world defaults
          (example_globals\<lparr> obs_stack := [[0], [1], [2], [3]], env := 2 \<rparr>) = Inr (True, g') \<and>
        map next_state (memory (actor_mem g')) = [[1, 2, 3, 7]] \<and>
        map reward (memory (actor_mem g')) = [100] \<and>
        obs_stack g' = [[1], [2], [3], [7]]"
proof -
  let ?g = "example_globals\<lparr> obs_stack := [[0], [1], [2], [3]], env := 2 \<rparr>"
  have a: "actor_model ?g = example_net" by (simp add: example_globals_def)
  have o: "episode_over example_world defaults ?g" by (rule example_terminal)
  from example_defined [OF a] o obtain g' where
    l: "loop_body example_world defaults ?g = Inr (True, g')"
    by auto
  have e: "env_step example_world (env ?g) (chosen_action defaults ?g) = (([3], 100, True, False), 3)"
    by (simp add: example_world_def)
  have s: "env_reset example_world 3 = ([7], 0)"
    by (simp add: example_world_def)
  note t = terminal_transition [OF l, unfolded Let_def e prod.case s]
  have "map next_state (memory (actor_mem g')) = [[1, 2, 3, 7]] \<and>
        map reward (memory (actor_mem g')) = [100] \<and>
        obs_stack g' = [[1], [2], [3], [7]]"
    using t
    by (simp add: defaults_def example_globals_def push_def shaped_def resident_def admit_def
        append_maxlen_def)
  with l show ?thesis by (intro exI [of _ g']) simp
qed

section \<open>The decay of epsilon\<close>

text \<open>
  Claim C2 does not hold on the code. \<open>CustomDQN.forward\<close> calls
  \<open>greedy_epsilon.choose\<close> before it looks at \<open>training\<close> (line 148), and
  \<open>model_train\<close> runs three forward passes (lines 345, 359 and 363). In a pass through
  the loop in which \<open>try_learning\<close> trains, \<open>eps\<close> is therefore decayed four times.
  Below, the script's settings, its starting value \<open>eps = 2\<close> and a replay store of
  65 transitions: \<open>eps\<close> drops by \<open>4 * EPS_DECAY\<close> in one pass.
\<close>

theorem epsilon_decay_on_training_step:
  "\<exists>d g'. loop_body example_world defaults
            (example_globals\<lparr> actor_mem := \<lparr> capacity = 1000000,
                                              memory = replicate 65 (example_record 1) \<rparr> \<rparr>)
          = Inr (d, g') \<and>
          eps (example_globals\<lparr> actor_mem := \<lparr> capacity = 1000000,
                                              memory = replicate 65 (example_record 1) \<rparr> \<rparr>)
            - eps g' = 4 * EPS_DECAY defaults"
proof -
  let ?g = "example_globals\<lparr> actor_mem := \<lparr> capacity = 1000000,
                                              memory = replicate 65 (example_record 1) \<rparr> \<rparr>"
  have a: "actor_model ?g = example_net" by (simp add: example_globals_def)
  from example_defined [OF a] obtain g' where
    l: "loop_body example_world defaults ?g = Inr (episode_over example_world defaults ?g, g')"
    by blast
  have o: "\<not> episode_over example_world defaults ?g"
    by (simp add: episode_over_def env_response_def example_world_def example_globals_def)
  have s: "length (memory (store_after example_world defaults ?g)) = 65"
    using o by (simp add: store_after_def example_globals_def defaults_def)
  have "eps g' = decayed defaults (decayed defaults (decayed defaults (decayed defaults (eps ?g))))"
    using loop_body_result(8) [OF l] s by (simp add: defaults_def example_globals_def)
  then have "eps ?g - eps g' = 4 * EPS_DECAY defaults"
    by (simp add: decayed_def defaults_def example_globals_def eps_start_def)
  with l show ?thesis by blast
qed

section \<open>When a training step runs\<close>

text \<open>
  Claim C6. Whenever \<open>try_learning\<close> returns, it has called \<open>model_train\<close> (and
  logged one more loss under \<open>a_loss\<close>) if and only if learning is enabled, the replay
  store holds strictly more than \<open>BATCH_SIZE\<close> transitions and the step count is a
  multiple of \<open>TRAIN_INTERVAL\<close>; then the online network and the optimizer are the ones
  that \<open>model_train\<close> returned, and otherwise they, \<open>eps\<close> and the log are as
  before. The replay store and the target network are never changed. When the store
  holds \<open>BATCH_SIZE\<close> or fewer transitions the call returns without an error
  (provided the modulus by \<open>SAVE_INTERVAL\<close> on line 200 is defined), with both
  networks, the optimizer and the store unchanged. Every pass through the loop calls
  \<open>try_learning\<close> again, on the store as that pass has left it.
\<close>

theorem training_gate:
  "(try_learning w c g = Inr g' \<longrightarrow>
      length (filter (\<lambda>e. fst e = ''a_loss'') (multiplot g')) =
        length (filter (\<lambda>e. fst e = ''a_loss'') (multiplot g))
        + (if LEARNING_ENABLED c \<and> BATCH_SIZE c < length (memory (actor_mem g))
              \<and> step g mod TRAIN_INTERVAL c = 0 then 1 else 0) \<and>
      (if LEARNING_ENABLED c \<and> BATCH_SIZE c < length (memory (actor_mem g))
          \<and> step g mod TRAIN_INTERVAL c = 0
       then \<exists>loss g1. model_train w c (BATCH_SIZE c) g = Inr (loss, g1) \<and>
              actor_model g' = actor_model g1 \<and> actor_optimizer g' = actor_optimizer g1 \<and>
              multiplot g' = multiplot g1 @ [(''a_loss'', loss)]
       else actor_model g' = actor_model g \<and> actor_optimizer g' = actor_optimizer g \<and>
            multiplot g' = multiplot g \<and> eps g' = eps g) \<and>
      actor_mem g' = actor_mem g \<and> pred_model g' = pred_model g) \<and>
   (length (memory (actor_mem g)) \<le> BATCH_SIZE c \<and> (LEARNING_ENABLED c \<longrightarrow> SAVE_INTERVAL c \<noteq> 0) \<longrightarrow>
      (\<exists>g1. try_learning w c g = Inr g1 \<and> actor_model g1 = actor_model g \<and>
            pred_model g1 = pred_model g \<and> actor_optimizer g1 = actor_optimizer g \<and>
            actor_mem g1 = actor_mem g)) \<and>
   (loop_body w c g = Inr (d, g2) \<longrightarrow>
      (\<exists>h h'. try_learning w c h = Inr h' \<and> actor_mem h = store_after w c g \<and>
             step h = step g \<and> actor_model h = actor_model g \<and>
             actor_model g2 = actor_model h' \<and> actor_optimizer g2 = actor_optimizer h'))"
proof -
  let ?t = "LEARNING_ENABLED c \<and> BATCH_SIZE c < length (memory (actor_mem g))
              \<and> step g mod TRAIN_INTERVAL c = 0"
  have one: "length (filter (\<lambda>e. fst e = ''a_loss'') (multiplot g')) =
        length (filter (\<lambda>e. fst e = ''a_loss'') (multiplot g)) + (if ?t then 1 else 0) \<and>
      (if ?t
       then \<exists>loss g1. model_train w c (BATCH_SIZE c) g = Inr (loss, g1) \<and>
              actor_model g' = actor_model g1 \<and> actor_optimizer g' = actor_optimizer g1 \<and>
              multiplot g' = multiplot g1 @ [(''a_loss'', loss)]
       else actor_model g' = actor_model g \<and> actor_optimizer g' = actor_optimizer g \<and>
            multiplot g' = multiplot g \<and> eps g' = eps g) \<and>
      actor_mem g' = actor_mem g \<and> pred_model g' = pred_model g"
    if r: "try_learning w c g = Inr g'"
  proof (cases ?t)
    case True
    then have g': "g' = save_model c (trained w c g)"
      using r by (auto simp: try_learning_result split: if_splits)
    from True have "BATCH_SIZE c \<le> length (memory (actor_mem g))" by simp
    from model_train_trained [OF this, of w] True show ?thesis
      unfolding g' by (simp add: save_model_fields trained_fields trained_a_loss)
  next
    case False
    then have "g' = g \<or> g' = save_model c g"
      using r by (auto simp: try_learning_result split: if_splits)
    with False show ?thesis
      by (auto simp: save_model_fields)
  qed
  have two: "\<exists>g1. try_learning w c g = Inr g1 \<and> actor_model g1 = actor_model g \<and>
            pred_model g1 = pred_model g \<and> actor_optimizer g1 = actor_optimizer g \<and>
            actor_mem g1 = actor_mem g"
    if "length (memory (actor_mem g)) \<le> BATCH_SIZE c \<and> (LEARNING_ENABLED c \<longrightarrow> SAVE_INTERVAL c \<noteq> 0)"
    using that by (auto simp: try_learning_result save_model_fields)
  have three: "\<exists>h h'. try_learning w c h = Inr h' \<and> actor_mem h = store_after w c g \<and>
             step h = step g \<and> actor_model h = actor_model g \<and>
             actor_model g2 = actor_model h' \<and> actor_optimizer g2 = actor_optimizer h'"
    if l: "loop_body w c g = Inr (d, g2)"
  proof -
    from loop_body_steps [OF l] obtain h where
      ls: "learn_and_sync w c h = Inr g2" and f: "actor_mem h = store_after w c g"
        "step h = step g" "actor_model h = actor_model g"
      by blast
    note r = learn_and_sync_result [OF ls]
    let ?h' = "if LEARNING_ENABLED c
               then save_model c (if trains c h then trained w c h else h) else h"
    have "actor_model g2 = actor_model ?h'" "actor_optimizer g2 = actor_optimizer ?h'"
      by (subst r(3), simp)+
    with r(1) f show ?thesis by blast
  qed
  from one two three show ?thesis by blast
qed

text \<open>
  With the script's settings: on an empty store nothing is trained, on a store of 65
  transitions one loss is logged, and a pass through the loop from the start state
  leaves the online network as it was.
\<close>

theorem training_gate_example:
  "\<exists>g1 g2 d g3.
     try_learning example_world defaults example_globals = Inr g1 \<and>
     multiplot g1 = [] \<and> actor_model g1 = example_net \<and>
     try_learning example_world defaults
       (example_globals\<lparr> actor_mem := \<lparr> capacity = 1000000,
                                         memory = replicate 65 (example_record 1) \<rparr> \<rparr>) = Inr g2 \<and>
     length (filter (\<lambda>e. fst e = ''a_loss'') (multiplot g2)) = 1 \<and>
     loop_body example_world defaults example_globals = Inr (d, g3) \<and>
     actor_model g3 = example_net"
proof -
  let ?g = "example_globals\<lparr> actor_mem := \<lparr> capacity = 1000000,
                                         memory = replicate 65 (example_record 1) \<rparr> \<rparr>"
  obtain g1 where g1: "try_learning example_world defaults example_globals = Inr g1"
    by (simp add: try_learning_result defaults_def example_globals_def)
  obtain g2 where g2: "try_learning example_world defaults ?g = Inr g2"
    by (simp add: try_learning_result defaults_def example_globals_def)
  have "actor_model example_globals = example_net" by (simp add: example_globals_def)
  from example_defined [OF this] obtain d g3 where
    g3: "loop_body example_world defaults example_globals = Inr (d, g3)"
    by blast
  have o: "\<not> episode_over example_world defaults example_globals"
    by (simp add: episode_over_def env_response_def example_world_def example_globals_def)
  have s: "store_after example_world defaults example_globals = actor_mem example_globals"
    using o by (simp add: store_after_def example_globals_def defaults_def)
  have a: "multiplot g1 = [] \<and> actor_model g1 = example_net"
    using training_gate [of example_world defaults example_globals g1 d g3] g1
    by (simp add: defaults_def example_globals_def)
  have b: "length (filter (\<lambda>e. fst e = ''a_loss'') (multiplot g2)) = 1"
    using training_gate [of example_world defaults ?g g2 d g3] g2
    by (simp add: defaults_def example_globals_def)
  from training_gate [of example_world defaults example_globals g1 d g3] g3 s
  obtain h h' where h: "try_learning example_world defaults h = Inr h'"
      "actor_mem h = actor_mem example_globals" "step h = step example_globals"
      "actor_model h = actor_model example_globals" "actor_model g3 = actor_model h'"
    by auto
  have "actor_model h' = actor_model h"
    using training_gate [of example_world defaults h h' d g3] h(1,2)
    by (simp add: defaults_def example_globals_def)
  then have c: "actor_model g3 = example_net"
    using h by (simp add: example_globals_def)
  from g1 g2 g3 a b c show ?thesis by blast
qed

section \<open>Target synchronization\<close>

text \<open>
  Claim C8. With both intervals different from zero, \<open>soft_hard_copy\<close> returns the
  online parameters in place of the target's on a step that is a multiple of the hard
  interval (whether or not the soft blend fires on the same step), the blend
  \<open>\<theta>\<^sub>t + \<tau> (\<theta>\<^sub>o - \<theta>\<^sub>t)\<close> of every target parameter on a step that is a multiple of
  the soft interval only, and the target unchanged on every other step. For networks of
  the same shape the blend acts on each entry of the parameter list, and the hard copy
  makes the parameter lists equal. A pass through the loop calls the scheduler once,
  with the step count of the pass, the online network as training has left it and the
  target network as it was before the pass; the step count then increases by one.
  Neither \<open>try_learning\<close> nor \<open>model_train\<close> changes the target network.
\<close>

theorem target_synchronization:
  "(soft_copy_interval adj \<noteq> 0 \<and> hard_copy_interval adj \<noteq> 0 \<longrightarrow>
      soft_hard_copy adj n online target =
        Inr (if n mod hard_copy_interval adj = 0 then copy_params online target
             else if n mod soft_copy_interval adj = 0
                  then map_params2 (blend (tau adj)) online target
                  else target)) \<and>
   (same_shape online target \<longrightarrow>
      parameters (map_params2 (blend t) online target) =
        map2 (\<lambda>theta_o theta_t. theta_t + t * (theta_o - theta_t))
          (parameters online) (parameters target)) \<and>
   parameters (copy_params online target) = parameters online \<and>
   (loop_body w c g = Inr (d, g') \<longrightarrow>
      soft_hard_copy (model_adjuster c) (step g) (actor_model g') (pred_model g)
        = Inr (pred_model g') \<and>
      step g' = Suc (step g)) \<and>
   (try_learning w c g = Inr g1 \<longrightarrow> pred_model g1 = pred_model g) \<and>
   (model_train w c k g = Inr (l, g2) \<longrightarrow> pred_model g2 = pred_model g)"
proof -
  have a: "parameters (map_params2 (blend t) online target) =
        map2 (\<lambda>theta_o theta_t. theta_t + t * (theta_o - theta_t))
          (parameters online) (parameters target)" if "same_shape online target"
    using parameters_map2 [OF that, of "blend t"] by (simp add: blend_def [abs_def])
  have b: "parameters (copy_params online target) = parameters online"
    by (simp add: parameters_def copy_params_def)
  have c: "pred_model g1 = pred_model g" if "try_learning w c g = Inr g1"
    using that
    by (auto simp: try_learning_result save_model_fields trained_fields split: if_splits)
  have d: "pred_model g2 = pred_model g" if "model_train w c k g = Inr (l, g2)"
  proof (cases "k \<le> length (memory (actor_mem g))")
    case True
    with that show ?thesis by (auto simp: model_train_result Let_def)
  next
    case False
    with that show ?thesis by (simp add: model_train_short)
  qed
  show ?thesis
    using soft_hard_copy_result [of adj n online target] a b c d
      loop_body_result(4,7) [of w c g d g']
    by blast
qed

text \<open>
  A scheduler with \<open>\<tau> = 0.1\<close>, soft interval \<open>2\<close> and hard interval \<open>4\<close>: on step
  \<open>2\<close> the differing bias moves a tenth of the way, on step \<open>4\<close> the target
  equals the online network, on step \<open>3\<close> nothing changes. With the script's
  settings the first pass through the loop is a hard copy and moves the step count
  to one.
\<close>

theorem target_synchronization_example:
  "\<exists>T1 d g' g1 l g2.
     soft_hard_copy \<lparr> tau = 1 / 10, hard_copy_interval = 4, soft_copy_interval = 2 \<rparr> 2
       example_net (example_net\<lparr> isPred := True, lin_oA := \<lparr> weight = [[0], [0], [0], [0]],
                                                          bias = [0, 0, 0, 0] \<rparr> \<rparr>) = Inr T1 \<and>
     bias (lin_oA T1) = [0, 1 / 10, 0, 0] \<and> isPred T1 \<and>
     soft_hard_copy \<lparr> tau = 1 / 10, hard_copy_interval = 4, soft_copy_interval = 2 \<rparr> 4
       example_net (example_net\<lparr> isPred := True, lin_oA := \<lparr> weight = [[0], [0], [0], [0]],
                                                          bias = [0, 0, 0, 0] \<rparr> \<rparr>)
       = Inr (example_net\<lparr> isPred := True \<rparr>) \<and>
     soft_hard_copy \<lparr> tau = 1 / 10, hard_copy_interval = 4, soft_copy_interval = 2 \<rparr> 3
       example_net (example_net\<lparr> isPred := True, lin_oA := \<lparr> weight = [[0], [0], [0], [0]],
                                                          bias = [0, 0, 0, 0] \<rparr> \<rparr>)
       = Inr (example_net\<lparr> isPred := True, lin_oA := \<lparr> weight = [[0], [0], [0], [0]],
                                                     bias = [0, 0, 0, 0] \<rparr> \<rparr>) \<and>
     loop_body example_world defaults example_globals = Inr (d, g') \<and>
     pred_model g' = example_net\<lparr> isPred := True \<rparr> \<and> step g' = 1 \<and>
     try_learning example_world defaults example_globals = Inr g1 \<and>
     pred_model g1 = example_net\<lparr> isPred := True \<rparr> \<and>
     model_train example_world defaults 0 example_globals = Inr (l, g2) \<and>
     pred_model g2 = example_net\<lparr> isPred := True \<rparr>"
proof -
  let ?adj = "\<lparr> tau = 1 / 10, hard_copy_interval = 4, soft_copy_interval = 2 \<rparr>"
  let ?T = "example_net\<lparr> isPred := True, lin_oA := \<lparr> weight = [[0], [0], [0], [0]],
                                                     bias = [0, 0, 0, 0] \<rparr> \<rparr>"
  have s2: "soft_hard_copy ?adj 2 example_net ?T = Inr (map_params2 (blend (1 / 10)) example_net ?T)"
    using target_synchronization [of ?adj 2 example_net ?T, THEN conjunct1] by simp
  have b: "bias (lin_oA (map_params2 (blend (1 / 10)) example_net ?T)) = [0, 1 / 10, 0, 0]"
    "isPred (map_params2 (blend (1 / 10)) example_net ?T)"
    by (simp_all add: map_params2_def map_Linear2_def blend_def example_net_def)
  have s4: "soft_hard_copy ?adj 4 example_net ?T = Inr (example_net\<lparr> isPred := True \<rparr>)"
    using target_synchronization [of ?adj 4 example_net ?T, THEN conjunct1]
    by (simp add: copy_params_def example_net_def)
  have s3: "soft_hard_copy ?adj 3 example_net ?T = Inr ?T"
    using target_synchronization [of ?adj 3 example_net ?T, THEN conjunct1] by simp
  have "actor_model example_globals = example_net" by (simp add: example_globals_def)
  from example_defined [OF this] obtain d g' where
    l: "loop_body example_world defaults example_globals = Inr (d, g')"
    by blast
  have o: "\<not> episode_over example_world defaults example_globals"
    by (simp add: episode_over_def env_response_def example_world_def example_globals_def)
  have s: "store_after example_world defaults example_globals = actor_mem example_globals"
    using o by (simp add: store_after_def example_globals_def defaults_def)
  have a: "actor_model g' = example_net"
    using loop_body_untrained(1) [OF l] s by (simp add: example_globals_def defaults_def)
  have sh: "soft_hard_copy (model_adjuster defaults) 0 example_net (example_net\<lparr> isPred := True \<rparr>)
              = Inr (example_net\<lparr> isPred := True \<rparr>)"
    using target_synchronization [of "model_adjuster defaults" 0 example_net
        "example_net\<lparr> isPred := True \<rparr>", THEN conjunct1]
    by (simp add: model_adjuster_def defaults_def copy_params_def example_net_def)
  have "soft_hard_copy (model_adjuster defaults) (step example_globals) (actor_model g')
          (pred_model example_globals) = Inr (pred_model g') \<and> step g' = Suc (step example_globals)"
    using target_synchronization [of "model_adjuster defaults" 0 example_net
        "example_net\<lparr> isPred := True \<rparr>" 0 example_world defaults example_globals d g',
        THEN conjunct2, THEN conjunct2, THEN conjunct2, THEN conjunct1] l
    by simp
  then have p: "pred_model g' = example_net\<lparr> isPred := True \<rparr> \<and> step g' = 1"
    using sh a by (simp add: example_globals_def)
  obtain g1 where g1: "try_learning example_world defaults example_globals = Inr g1"
    by (simp add: try_learning_result defaults_def example_globals_def)
  obtain lo g2 where g2: "model_train example_world defaults 0 example_globals = Inr (lo, g2)"
    by (simp add: model_train_result Let_def)
  have q: "pred_model g1 = example_net\<lparr> isPred := True \<rparr>"
       "pred_model g2 = example_net\<lparr> isPred := True \<rparr>"
    using target_synchronization [of ?adj 0 example_net ?T 0 example_world defaults
        example_globals d g' g1 0 lo g2] g1 g2
    by (simp_all add: example_globals_def)
  from s2 b s4 s3 l p g1 g2 q show ?thesis by blast
qed

section \<open>The training step\<close>

text \<open>
  Claim C1. The target computed by lines 357 to 367 is, for every transition of the
  batch, \<open>reward + GAMMA * Q\<^sub>t\<^sub>a\<^sub>r\<^sub>g\<^sub>e\<^sub>t(s', a*)\<close>, where \<open>a*\<close> is the arg-max of the
  action values that the online network's forward pass returns for the same next state
  \<open>s'\<close>: in training mode that pass returns the action values themselves, whatever the
  exploration policy draws, and so does the pass of the target network, whose own
  arg-max is never taken. The arg-max of a non-empty row is an index of the row, no
  entry of the row is larger than the one it selects, and it is the first such index.
  The whole computation is a constant of the loss that is differentiated: when
  \<open>model_train\<close> runs on a store with enough transitions, the function handed to
  \<open>backward\<close> depends on the online parameters \<open>\<theta>\<close> only through the forward pass on
  the sampled states, the target \<open>y\<close> being computed once from the current networks;
  the optimizer updates the online network only, and the target network is unchanged.
\<close>

theorem double_dqn_target:
  "fst (ddqn_target c nsb rs g) =
     map2 (\<lambda>r s'. r + Q_values (pred_model g) s' ! argmax (Q_values (actor_model g) s') * GAMMA c)
       rs nsb \<and>
   map argmax (fst (fst (forward c (actor_model g) nsb None True g))) =
     map (\<lambda>s'. argmax (Q_values (actor_model g) s')) nsb \<and>
   fst (fst (forward c (pred_model g) nsb None True h)) = map (Q_values (pred_model g)) nsb \<and>
   (xs \<noteq> [] \<longrightarrow>
      argmax xs < length xs \<and> (\<forall>j < length xs. xs ! j \<le> xs ! argmax xs) \<and>
      (\<forall>j < argmax xs. xs ! j < xs ! argmax xs)) \<and>
   (k \<le> length (memory (actor_mem g)) \<longrightarrow>
      (let ts = sampled_batch g k;
           y = map (\<lambda>t. reward t
                        + Q_values (pred_model g) (next_state t)
                            ! argmax (Q_values (actor_model g) (next_state t)) * GAMMA c) ts;
           L = (\<lambda>\<theta>. HuberLoss (map (\<lambda>t. Q_values \<theta> (state t) ! action t) ts) y
                    + HuberLoss (concat (map (\<lambda>t. next_state_prediction \<theta> (state t) (action t)) ts))
                        (concat (map next_state ts)))
       in \<exists>g'. model_train w c k g = Inr (L (actor_model g), g') \<and>
            pred_model g' = pred_model g \<and>
            (actor_model g', actor_optimizer g') =
              optimizer_step w (ACTOR_LR c)
                (clip_grad_value w (backward w L (actor_model g)) 1)
                (actor_model g) (actor_optimizer g)))"
proof -
  have a: "map argmax (fst (fst (forward c (actor_model g) nsb None True g))) =
     map (\<lambda>s'. argmax (Q_values (actor_model g) s')) nsb"
    by (simp add: forward_training)
  have b: "fst (fst (forward c (pred_model g) nsb None True h)) = map (Q_values (pred_model g)) nsb"
    by (simp add: forward_training)
  have d: "let ts = sampled_batch g k;
           y = map (\<lambda>t. reward t
                        + Q_values (pred_model g) (next_state t)
                            ! argmax (Q_values (actor_model g) (next_state t)) * GAMMA c) ts;
           L = (\<lambda>\<theta>. HuberLoss (map (\<lambda>t. Q_values \<theta> (state t) ! action t) ts) y
                    + HuberLoss (concat (map (\<lambda>t. next_state_prediction \<theta> (state t) (action t)) ts))
                        (concat (map next_state ts)))
       in \<exists>g'. model_train w c k g = Inr (L (actor_model g), g') \<and>
            pred_model g' = pred_model g \<and>
            (actor_model g', actor_optimizer g') =
              optimizer_step w (ACTOR_LR c)
                (clip_grad_value w (backward w L (actor_model g)) 1)
                (actor_model g) (actor_optimizer g)"
    if "k \<le> length (memory (actor_mem g))"
    unfolding model_train_result [OF that] Let_def
    by (simp add: training_loss_def [abs_def] td_target_def [abs_def])
  show ?thesis
    using ddqn_target_values [of c nsb rs g] a b argmax_props(1,3,4) [of xs] d by blast
qed

text \<open>
  The arg-max of \<open>1, 3, 3, 2\<close> selects the value \<open>3\<close>; with the example networks,
  whose action values are \<open>0, 1, 0, 0\<close>, a reward of \<open>1\<close> gives the target
  \<open>1 + 0.99 * 1\<close>, and a training step on that transition has the loss
  \<open>0.99\<^sup>2 / 2\<close> and leaves the target network alone.
\<close>

theorem double_dqn_target_example:
  "argmax [1, 3, 3, 2] < length [1 :: real, 3, 3, 2] \<and>
   [1 :: real, 3, 3, 2] ! argmax [1, 3, 3, 2] = 3 \<and>
   fst (ddqn_target defaults [[0, 0, 0, 0]] [1] example_globals) = [199 / 100] \<and>
   (\<exists>g'. model_train example_world defaults 1
            (example_globals\<lparr> actor_mem := \<lparr> capacity = 1000000,
                                              memory = [example_record 1] \<rparr> \<rparr>)
          = Inr (9801 / 20000, g') \<and>
          pred_model g' = example_net\<lparr> isPred := True \<rparr>)"
proof -
  let ?g = "example_globals\<lparr> actor_mem := \<lparr> capacity = 1000000,
                                              memory = [example_record 1] \<rparr> \<rparr>"
  note t = double_dqn_target [of defaults "[[0, 0, 0, 0]]" "[1]" example_globals
      example_globals "[1, 3, 3, 2]" 1 example_world]
  have x: "argmax [1, 3, 3, 2] < length [1 :: real, 3, 3, 2]"
    using t by simp
  have y: "[1 :: real, 3, 3, 2] ! argmax [1, 3, 3, 2] = 3"
    by (simp add: argmax_def)
  have p: "pred_model example_globals = example_net\<lparr> isPred := True \<rparr>"
      "actor_model example_globals = example_net"
    by (simp_all add: example_globals_def)
  have q: "Q_values (example_net\<lparr> isPred := True \<rparr>) v = [0, 1, 0, 0]" for v
    by (simp add: Q_values_def example_net_def Linear_forward_def leaky_relu_def hidden_def)
  have am: "argmax [0, 1, 0, 0] = 1" by (simp add: argmax_def)
  have z: "fst (ddqn_target defaults [[0, 0, 0, 0]] [1] example_globals) = [199 / 100]"
    using t by (simp add: p q example_Q_values am defaults_def)
  have n: "next_state_prediction example_net [0, 0, 0, 0] (Suc 0) = [0, 0, 0, 0]"
    by (simp add: next_state_prediction_def example_net_def Linear_forward_def leaky_relu_def
        hidden_def one_hot_def Q_values_def)
  have pg: "pred_model ?g = example_net\<lparr> isPred := True \<rparr>" "actor_model ?g = example_net"
    by (simp_all add: example_globals_def)
  have k: "(1::nat) \<le> length (memory (actor_mem ?g))" by simp
  have "\<exists>g'. model_train example_world defaults 1 ?g = Inr (9801 / 20000, g') \<and>
          pred_model g' = example_net\<lparr> isPred := True \<rparr>"
    using double_dqn_target [of defaults "[]" "[]" ?g ?g "[1]" 1 example_world,
        THEN conjunct2, THEN conjunct2, THEN conjunct2, THEN conjunct2, rule_format, OF k]
    unfolding Let_def example_sampled pg
    by (auto simp: example_record_def q example_Q_values am n HuberLoss_def huber_def
        defaults_def)
  with x y z show ?thesis by simp
qed

text \<open>
  Claim C9. Replace \<open>SURPRISAL_BIAS\<close> and \<open>SURPRISAL_WEIGHT\<close> by any other values.
  The target, the function handed to \<open>backward\<close> (hence the gradients), and the result
  of \<open>model_train\<close> on the same globals (the same store, parameters and random
  samples) are the same, apart from the entries logged under the name \<open>surprisal\<close>:
  the same error, or the same loss and the same globals, in particular the same online
  parameters and optimizer state. A training step changes neither the replay store nor
  the window, so no stored reward, and what it logs is one \<open>surprisal\<close> entry followed
  by the norm of the gradient of that same function.
\<close>

theorem surprisal_only_telemetry:
  "ddqn_target (c\<lparr> SURPRISAL_BIAS := b, SURPRISAL_WEIGHT := s \<rparr>) nsb rs g
     = ddqn_target c nsb rs g \<and>
   actor_loss_fn (c\<lparr> SURPRISAL_BIAS := b, SURPRISAL_WEIGHT := s \<rparr>) sb ab nsb y g
     = actor_loss_fn c sb ab nsb y g \<and>
   map_sum id (\<lambda>(l, h). (l, h\<lparr> multiplot := filter (\<lambda>e. fst e \<noteq> ''surprisal'') (multiplot h) \<rparr>))
     (model_train w (c\<lparr> SURPRISAL_BIAS := b, SURPRISAL_WEIGHT := s \<rparr>) k g)
   = map_sum id (\<lambda>(l, h). (l, h\<lparr> multiplot := filter (\<lambda>e. fst e \<noteq> ''surprisal'') (multiplot h) \<rparr>))
       (model_train w c k g) \<and>
   (model_train w c k g = Inr (l, g') \<longrightarrow>
      actor_mem g' = actor_mem g \<and> short_memory g' = short_memory g \<and>
      (\<exists>v. multiplot g' = multiplot g @ [(''surprisal'', v),
              (''grad_norm'', grad_norm w (backward w
                 (actor_loss_fn c (map state (sampled_batch g k)) (map action (sampled_batch g k))
                    (map next_state (sampled_batch g k))
                    (fst (ddqn_target c (map next_state (sampled_batch g k))
                            (map reward (sampled_batch g k)) g)) g)
                 (actor_model g)))]))"
proof -
  let ?c = "c\<lparr> SURPRISAL_BIAS := b, SURPRISAL_WEIGHT := s \<rparr>"
  have a: "ddqn_target ?c nsb rs g = ddqn_target c nsb rs g"
    by (simp add: ddqn_target_def forward_surprisal_config)
  have f: "actor_loss_fn ?c sb ab nsb y g = actor_loss_fn c sb ab nsb y g"
    by (intro ext) (simp add: actor_loss_fn_def forward_surprisal_config)
  have m: "map_sum id (\<lambda>(l, h). (l, h\<lparr> multiplot := filter (\<lambda>e. fst e \<noteq> ''surprisal'') (multiplot h) \<rparr>))
     (model_train w ?c k g)
   = map_sum id (\<lambda>(l, h). (l, h\<lparr> multiplot := filter (\<lambda>e. fst e \<noteq> ''surprisal'') (multiplot h) \<rparr>))
       (model_train w c k g)"
  proof (cases "k \<le> length (memory (actor_mem g))")
    case True
    show ?thesis
      unfolding model_train_result [OF True] Let_def
      by (simp add: td_target_def [abs_def] decayed_def drawn_def)
  next
    case False
    then show ?thesis by (simp add: model_train_short)
  qed
  have r: "actor_mem g' = actor_mem g \<and> short_memory g' = short_memory g \<and>
      (\<exists>v. multiplot g' = multiplot g @ [(''surprisal'', v),
              (''grad_norm'', grad_norm w (backward w
                 (actor_loss_fn c (map state (sampled_batch g k)) (map action (sampled_batch g k))
                    (map next_state (sampled_batch g k))
                    (fst (ddqn_target c (map next_state (sampled_batch g k))
                            (map reward (sampled_batch g k)) g)) g)
                 (actor_model g)))])"
    if t: "model_train w c k g = Inr (l, g')"
  proof (cases "k \<le> length (memory (actor_mem g))")
    case True
    from t show ?thesis
      unfolding model_train_result [OF True] Let_def
      by (auto simp: actor_loss_fn_result ddqn_target_result)
  next
    case False
    with t show ?thesis by (simp add: model_train_short)
  qed
  from a f m r show ?thesis by blast
qed

text \<open>
  A training step on a store of one transition: the store and the window are as before
  and the log holds the two entries.
\<close>

theorem surprisal_only_telemetry_example:
  "\<exists>l g'. model_train example_world defaults 1
            (example_globals\<lparr> actor_mem := \<lparr> capacity = 1000000,
                                              memory = [example_record 1] \<rparr> \<rparr>) = Inr (l, g') \<and>
     memory (actor_mem g') = [example_record 1] \<and> short_memory g' = [] \<and>
     map fst (multiplot g') = [''surprisal'', ''grad_norm'']"
proof -
  let ?g = "example_globals\<lparr> actor_mem := \<lparr> capacity = 1000000,
                                              memory = [example_record 1] \<rparr> \<rparr>"
  have k: "(1::nat) \<le> length (memory (actor_mem ?g))" by simp
  obtain l g' where t: "model_train example_world defaults 1 ?g = Inr (l, g')"
    using model_train_result [OF k, of example_world defaults] by (simp add: Let_def)
  have "memory (actor_mem g') = [example_record 1] \<and> short_memory g' = [] \<and>
     map fst (multiplot g') = [''surprisal'', ''grad_norm'']"
    using surprisal_only_telemetry [where c = defaults and w = example_world and k = 1
        and g = ?g and l = l and g' = g', THEN conjunct2, THEN conjunct2, THEN conjunct2] t
    by (auto simp: example_globals_def)
  with t show ?thesis by (intro exI [of _ l] exI [of _ g']) simp
qed

end
